theory Spec2Isabelle
  imports Complex_Main "HOL-Library.Word"
begin

section \<open>The SVRG solver of tick (svrg.cpp)\<close>

text \<open>
  A shallow embedding of \<^verbatim>\<open>tick/optim/solver/src/svrg.cpp\<close>.

  \<^item> \<^verbatim>\<open>ulong\<close> values on which the code does arithmetic (the iteration counter \<^verbatim>\<open>t\<close>,
    \<^verbatim>\<open>epoch_size\<close>, \<^verbatim>\<open>rand_index\<close>, the entries of \<^verbatim>\<open>last_time\<close>, delays, the sample
    count and the per-column counts) are 64-bit words. Array sizes and array indices
    are natural numbers.
  \<^item> \<^verbatim>\<open>double\<close> is idealised as \<open>real\<close>: rounding, infinities and NaN are not modelled.
    The conversion of a \<^verbatim>\<open>ulong\<close> to \<^verbatim>\<open>double\<close> is \<open>real (unat x)\<close>.
  \<^item> An array is a list. Reading or writing an array out of its bounds, and dividing
    an integer by zero, are undefined behaviour in C++. The source has no check before
    them and raises no error of its own, so a routine returns either the new state
    (\<open>Inr\<close>) or the undefined behaviour it ran into (\<open>Inl\<close>).
  \<^item> The model and the prox are objects of classes that are not in \<^verbatim>\<open>svrg.cpp\<close>; their
    methods are the fields of the records \<open>ModelPtr\<close> and \<open>ProxPtr\<close>. A method that
    fills an output array is a function from the coordinate to the value written there.
\<close>

type_synonym ulong = "64 word"

text \<open>
  The two enumerations are declared in \<^verbatim>\<open>svrg.h\<close>. The code compares
  \<^verbatim>\<open>delayed_updates\<close> with \<^verbatim>\<open>Exact\<close> and with \<^verbatim>\<open>Proba\<close> in two separate tests,
  so a value that is neither needs a representative: \<open>Unrecognized\<close>.
\<close>

datatype VarianceReductionMethod = Last | Average | Random

datatype DelayedUpdatesMethod = Exact | Proba | Unrecognized

datatype undefined_behaviour = DivisionByZero | OutOfBounds

text \<open>A sparse vector: the pairs \<^verbatim>\<open>(indices()[k], data()[k])\<close> for \<^verbatim>\<open>k < size_sparse()\<close>.\<close>

type_synonym sparse_vec = "(nat \<times> real) list"

record ModelPtr =
  model_is_sparse :: bool
  model_get_n_features :: nat
  model_get_n_samples :: ulong
  model_use_intercept :: bool
  model_grad :: "real list \<Rightarrow> nat \<Rightarrow> real"
  model_grad_i :: "nat \<Rightarrow> real list \<Rightarrow> nat \<Rightarrow> real"
  model_grad_i_factor :: "nat \<Rightarrow> real list \<Rightarrow> real"
  model_get_features :: "nat \<Rightarrow> sparse_vec"
  model_compute_columns_non_zeros :: "nat \<Rightarrow> ulong"

record ProxPtr =
  prox_is_separable :: bool
  prox_call :: "real list \<Rightarrow> real \<Rightarrow> nat \<Rightarrow> real"
  prox_call_single :: "real \<Rightarrow> real \<Rightarrow> real"
  prox_call_single_n :: "real \<Rightarrow> real \<Rightarrow> ulong \<Rightarrow> real"

text \<open>
  The members of \<^verbatim>\<open>SVRG\<close> and those it inherits from \<^verbatim>\<open>StoSolver\<close> and uses here.
  The sampler and the random generator of \<^verbatim>\<open>StoSolver\<close> are not in \<^verbatim>\<open>svrg.cpp\<close>: the
  values they deliver are the sequences \<open>next_i_seq\<close> and \<open>rand_unif_seq\<close>, read at
  the positions \<open>n_next_i\<close> and \<open>n_rand_unif\<close>.
\<close>

record svrg =
  epoch_size :: ulong
  t :: ulong
  iterate :: "real list"
  model :: ModelPtr
  prox :: ProxPtr
  next_i_seq :: "nat \<Rightarrow> nat"
  n_next_i :: nat
  rand_unif_seq :: "nat \<Rightarrow> ulong \<Rightarrow> ulong"
  n_rand_unif :: nat
  step :: real
  variance_reduction :: VarianceReductionMethod
  delayed_updates :: DelayedUpdatesMethod
  ready_step_corrections :: bool
  is_model_sparse :: bool
  n_features :: nat
  use_intercept :: bool
  is_prox_separable :: bool
  fixed_w :: "real list"
  full_gradient :: "real list"
  next_iterate :: "real list"
  grad_i :: "real list"
  grad_i_fixed_w :: "real list"
  steps_correction :: "real list"
  last_time :: "ulong list"
  rand_index :: ulong

subsection \<open>Inherited operations\<close>

definition get_next_i :: "svrg \<Rightarrow> nat \<times> svrg" where
  "get_next_i s = (next_i_seq s (n_next_i s), s\<lparr>n_next_i := n_next_i s + 1\<rparr>)"

definition rand_unif :: "ulong \<Rightarrow> svrg \<Rightarrow> ulong \<times> svrg" where
  "rand_unif m s = (rand_unif_seq s (n_rand_unif s) m, s\<lparr>n_rand_unif := n_rand_unif s + 1\<rparr>)"

text \<open>
  Modelled from the spec: \<^verbatim>\<open>mult_incr\<close> belongs to the array class, which is not in
  \<^verbatim>\<open>svrg.cpp\<close>. \<^verbatim>\<open>y.mult_incr(x, a)\<close> is \<^verbatim>\<open>y[k] += x[k] * a\<close> for every \<^verbatim>\<open>k\<close>
  (\<open>next_iterate += iterate / epoch_size\<close> in the specification).
\<close>

definition mult_incr :: "real list \<Rightarrow> real list \<Rightarrow> real \<Rightarrow> undefined_behaviour + real list" where
  "mult_incr y x a =
     (if length x = length y then Inr (map2 (\<lambda>yk xk. yk + xk * a) y x) else Inl OutOfBounds)"

subsection \<open>Setters\<close>

text \<open>
  Modelled from the spec: the setters of \<^verbatim>\<open>StoSolver\<close>, which each setter of \<^verbatim>\<open>SVRG\<close>
  calls first, are not in \<^verbatim>\<open>svrg.cpp\<close>; they bind the model, the prox and the iterate.
  The rest of each setter is the code of \<^verbatim>\<open>svrg.cpp\<close>.
\<close>

definition set_model :: "ModelPtr \<Rightarrow> svrg \<Rightarrow> svrg" where
  "set_model m s =
     (let s1 = s\<lparr>model := m\<rparr>;
          s2 = s1\<lparr>ready_step_corrections := False\<rparr>;
          s3 = s2\<lparr>is_model_sparse := model_is_sparse m\<rparr>
      in if is_model_sparse s3
         then s3\<lparr>n_features := model_get_n_features m, use_intercept := model_use_intercept m\<rparr>
         else s3)"

definition set_prox :: "ProxPtr \<Rightarrow> svrg \<Rightarrow> svrg" where
  "set_prox p s = (s\<lparr>prox := p\<rparr>)\<lparr>is_prox_separable := prox_is_separable p\<rparr>"

definition set_starting_iterate :: "real list \<Rightarrow> svrg \<Rightarrow> svrg" where
  "set_starting_iterate new_iterate s =
     (let s1 = s\<lparr>iterate := new_iterate\<rparr> in s1\<lparr>next_iterate := iterate s1\<rparr>)"

subsection \<open>compute_step_corrections\<close>

text \<open>
  The loop of lines 86 to 88 over the array \<^verbatim>\<open>columns_non_zeros\<close>. The quotient
  \<^verbatim>\<open>n_samples / columns_non_zeros[j]\<close> has two \<^verbatim>\<open>ulong\<close> operands: it is the integer
  division, and the cast to \<^verbatim>\<open>double\<close> is applied to its result.
\<close>

fun step_corrections_loop :: "ulong \<Rightarrow> ulong list \<Rightarrow> undefined_behaviour + real list" where
  "step_corrections_loop n_samples [] = Inr []"
| "step_corrections_loop n_samples (c # cs) =
     (if c = 0 then Inl DivisionByZero
      else (case step_corrections_loop n_samples cs of
              Inl e \<Rightarrow> Inl e
            | Inr r \<Rightarrow> Inr (real (unat (n_samples div c)) # r)))"

definition compute_step_corrections :: "svrg \<Rightarrow> undefined_behaviour + svrg" where
  "compute_step_corrections s =
     (if \<not> ready_step_corrections s then
        (if model_is_sparse (model s) \<and> delayed_updates s = Proba then
           (let n_features = model_get_n_features (model s);
                n_samples = model_get_n_samples (model s);
                columns_non_zeros = map (model_compute_columns_non_zeros (model s)) [0..<n_features]
            in case step_corrections_loop n_samples columns_non_zeros of
                 Inl e \<Rightarrow> Inl e
               | Inr sc \<Rightarrow> Inr (s\<lparr>steps_correction := sc, ready_step_corrections := True\<rparr>))
         else Inr s)
      else Inr s)"

subsection \<open>prepare_solve\<close>

text \<open>
  \<^verbatim>\<open>ArrayDouble(n)\<close> allocates \<open>n\<close> doubles and does not set them: the two buffers of
  the dense branch are filled by \<^verbatim>\<open>model->grad_i\<close> before they are read, and hold 0 here
  until then. The cast of the prox to \<^verbatim>\<open>ProxSeparable\<close> changes no state.
\<close>

definition prepare_solve :: "svrg \<Rightarrow> undefined_behaviour + svrg" where
  "prepare_solve s =
     (let s1 = s\<lparr>fixed_w := next_iterate s\<rparr>;
          s2 = s1\<lparr>full_gradient := map (model_grad (model s1) (fixed_w s1)) [0..<length (iterate s1)]\<rparr>
      in case (if is_model_sparse s2
               then compute_step_corrections (s2\<lparr>last_time := replicate (n_features s2) 0\<rparr>)
               else Inr (s2\<lparr>grad_i := replicate (length (iterate s2)) 0,
                            grad_i_fixed_w := replicate (length (iterate s2)) 0\<rparr>)) of
           Inl e \<Rightarrow> Inl e
         | Inr s3 \<Rightarrow>
            (let s4 = s3\<lparr>rand_index := 0\<rparr>;
                 s5 = (if variance_reduction s4 = Random \<or> variance_reduction s4 = Average
                       then s4\<lparr>next_iterate := replicate (length (next_iterate s4)) 0\<rparr> else s4)
             in if variance_reduction s5 = Random
                then (let (r, s6) = rand_unif (epoch_size s5) s5 in Inr (s6\<lparr>rand_index := r\<rparr>))
                else Inr s5))"

subsection \<open>The snapshot selection at the end of an iteration\<close>

text \<open>
  Lines 103 to 108, 157 to 162 and 226 to 231: the same two tests in the three
  routines. The argument \<open>tt\<close> is the loop counter: a local variable in the dense
  routine, the member \<^verbatim>\<open>t\<close> in the sparse ones.
\<close>

definition select_next_iterate :: "ulong \<Rightarrow> svrg \<Rightarrow> undefined_behaviour + svrg" where
  "select_next_iterate tt s =
     (let s1 = (if variance_reduction s = Random \<and> tt = rand_index s
                then s\<lparr>next_iterate := iterate s\<rparr> else s)
      in if variance_reduction s1 = Average
         then (case mult_incr (next_iterate s1) (iterate s1) (1 / real (unat (epoch_size s1))) of
                 Inl e \<Rightarrow> Inl e
               | Inr y \<Rightarrow> Inr (s1\<lparr>next_iterate := y\<rparr>))
         else Inr s1)"

subsection \<open>solve_dense\<close>

definition dense_iteration :: "ulong \<Rightarrow> svrg \<Rightarrow> undefined_behaviour + svrg" where
  "dense_iteration tt s0 =
     (let (i, s) = get_next_i s0;
          s1 = s\<lparr>grad_i := map (model_grad_i (model s) i (iterate s)) [0..<length (grad_i s)]\<rparr>;
          s2 = s1\<lparr>grad_i_fixed_w :=
                 map (model_grad_i (model s1) i (fixed_w s1)) [0..<length (grad_i_fixed_w s1)]\<rparr>
      in if length (iterate s2) \<le> length (grad_i s2)
            \<and> length (iterate s2) \<le> length (grad_i_fixed_w s2)
            \<and> length (iterate s2) \<le> length (full_gradient s2)
         then
           (let s3 = s2\<lparr>iterate :=
                        map (\<lambda>j. iterate s2 ! j
                                   - step s2 * (grad_i s2 ! j - grad_i_fixed_w s2 ! j + full_gradient s2 ! j))
                            [0..<length (iterate s2)]\<rparr>;
                s4 = s3\<lparr>iterate := map (prox_call (prox s3) (iterate s3) (step s3))
                                         [0..<length (iterate s3)]\<rparr>
            in select_next_iterate tt s4)
         else Inl OutOfBounds)"

lemma select_next_iterate_epoch_size:
  "select_next_iterate tt s = Inr s' \<Longrightarrow> epoch_size s' = epoch_size s"
  by (auto simp: select_next_iterate_def Let_def split: if_splits sum.splits)

lemma dense_iteration_epoch_size:
  "dense_iteration tt s = Inr s' \<Longrightarrow> epoch_size s' = epoch_size s"
  by (auto simp: dense_iteration_def get_next_i_def Let_def
           split: if_splits prod.splits dest!: select_next_iterate_epoch_size)

lemma ulong_succ_unat:
  assumes "(tt :: ulong) < n"
  shows "unat (tt + 1) = Suc (unat tt)"
proof -
  have "tt + 1 \<noteq> 0"
    using assms by (metis add_eq_0_iff2 word_order.extremum_strict)
  then show ?thesis
    by (simp add: unatSuc add.commute)
qed

lemma ulong_loop_measure:
  assumes "(tt :: ulong) < n"
  shows "unat n - unat (tt + 1) < unat n - unat tt"
proof -
  have "unat tt < unat n"
    using assms by (simp add: word_less_nat_alt)
  then show ?thesis
    by (simp add: ulong_succ_unat [OF assms])
qed

function dense_loop :: "ulong \<Rightarrow> svrg \<Rightarrow> undefined_behaviour + svrg" where
  "dense_loop tt s =
     (if tt < epoch_size s
      then (case dense_iteration tt s of
              Inl e \<Rightarrow> Inl e
            | Inr s' \<Rightarrow> dense_loop (tt + 1) s')
      else Inr s)"
  by pat_completeness auto
termination
  by (relation "measure (\<lambda>(tt, s). unat (epoch_size s) - unat tt)")
     (auto simp: ulong_loop_measure dest!: dense_iteration_epoch_size)

declare dense_loop.simps [simp del]

definition solve_dense :: "svrg \<Rightarrow> undefined_behaviour + svrg" where
  "solve_dense s =
     (case dense_loop 0 s of
        Inl e \<Rightarrow> Inl e
      | Inr s1 \<Rightarrow>
         (let s2 = (if variance_reduction s1 = Last then s1\<lparr>next_iterate := iterate s1\<rparr> else s1)
          in Inr (s2\<lparr>t := t s2 + epoch_size s2\<rparr>)))"

subsection \<open>solve_sparse_proba_updates\<close>

text \<open>Lines 135 to 144: the body of the loop over the support of the sampled row.\<close>

definition proba_update_coord :: "svrg \<Rightarrow> real \<Rightarrow> nat \<times> real \<Rightarrow> undefined_behaviour + svrg" where
  "proba_update_coord s grad_i_diff jx =
     (let j = fst jx; x_ij = snd jx
      in if j < length (full_gradient s) \<and> j < length (steps_correction s) \<and> j < length (iterate s)
         then
           (let full_gradient_j = full_gradient s ! j;
                step_correction = steps_correction s ! j;
                w = iterate s ! j - step s * (x_ij * grad_i_diff + step_correction * full_gradient_j);
                w' = (if is_prox_separable s
                      then prox_call_single (prox s) w (step s * step_correction) else w)
            in Inr (s\<lparr>iterate := (iterate s)[j := w']\<rparr>))
         else Inl OutOfBounds)"

fun proba_support_loop :: "svrg \<Rightarrow> real \<Rightarrow> sparse_vec \<Rightarrow> undefined_behaviour + svrg" where
  "proba_support_loop s grad_i_diff [] = Inr s"
| "proba_support_loop s grad_i_diff (jx # x_rest) =
     (case proba_update_coord s grad_i_diff jx of
        Inl e \<Rightarrow> Inl e
      | Inr s' \<Rightarrow> proba_support_loop s' grad_i_diff x_rest)"

text \<open>Lines 146 to 149 and 215 to 218: a prox that is not separable is applied to the whole vector.\<close>

definition apply_prox_not_separable :: "svrg \<Rightarrow> svrg" where
  "apply_prox_not_separable s =
     (if \<not> is_prox_separable s
      then s\<lparr>iterate := map (prox_call (prox s) (iterate s) (step s)) [0..<length (iterate s)]\<rparr>
      else s)"

text \<open>Lines 152 to 154 and 221 to 223: the intercept.\<close>

definition update_intercept :: "svrg \<Rightarrow> real \<Rightarrow> undefined_behaviour + svrg" where
  "update_intercept s grad_i_diff =
     (if use_intercept s then
        (if n_features s < length (iterate s) \<and> n_features s < length (full_gradient s)
         then Inr (s\<lparr>iterate := (iterate s)[n_features s :=
                      iterate s ! n_features s
                        - step s * (grad_i_diff + full_gradient s ! n_features s)]\<rparr>)
         else Inl OutOfBounds)
      else Inr s)"

definition proba_iteration :: "svrg \<Rightarrow> undefined_behaviour + svrg" where
  "proba_iteration s0 =
     (let (i, s) = get_next_i s0;
          x_i = model_get_features (model s) i;
          grad_i_diff = model_grad_i_factor (model s) i (iterate s)
                          - model_grad_i_factor (model s) i (fixed_w s)
      in case proba_support_loop s grad_i_diff x_i of
           Inl e \<Rightarrow> Inl e
         | Inr s1 \<Rightarrow>
            (case update_intercept (apply_prox_not_separable s1) grad_i_diff of
               Inl e \<Rightarrow> Inl e
             | Inr s2 \<Rightarrow> select_next_iterate (t s2) s2))"

lemma proba_update_coord_frame:
  assumes "proba_update_coord s g jx = Inr s'"
  shows "\<exists>w. s' = s\<lparr>iterate := w\<rparr>"
  using assms by (auto simp: proba_update_coord_def Let_def split: if_splits)

lemma proba_support_loop_frame:
  "proba_support_loop s g xs = Inr s' \<Longrightarrow> \<exists>w. s' = s\<lparr>iterate := w\<rparr>"
proof (induction xs arbitrary: s)
  case Nil
  have "s = s\<lparr>iterate := iterate s\<rparr>" by simp
  with Nil show ?case by (metis proba_support_loop.simps(1) sum.inject(2))
next
  case (Cons jx xs)
  from Cons.prems obtain s1 where
    1: "proba_update_coord s g jx = Inr s1" and 2: "proba_support_loop s1 g xs = Inr s'"
    by (auto split: sum.splits)
  obtain w where w: "s' = s1\<lparr>iterate := w\<rparr>"
    using Cons.IH [OF 2] by blast
  obtain w1 where w1: "s1 = s\<lparr>iterate := w1\<rparr>"
    using proba_update_coord_frame [OF 1] by blast
  have "s' = s\<lparr>iterate := w\<rparr>"
    unfolding w w1 by simp
  then show ?case ..
qed

lemma keep_iterate: "\<exists>w. (s :: svrg) = s\<lparr>iterate := w\<rparr>"
  by (rule exI [of _ "iterate s"]) simp

lemma keep_next_iterate: "\<exists>w. (s :: svrg) = s\<lparr>next_iterate := w\<rparr>"
  by (rule exI [of _ "next_iterate s"]) simp

lemma select_next_iterate_frame:
  "select_next_iterate tt s = Inr s' \<Longrightarrow> \<exists>w. s' = s\<lparr>next_iterate := w\<rparr>"
  by (auto simp: select_next_iterate_def Let_def keep_next_iterate split: if_splits sum.splits)

lemma proba_iteration_frame:
  assumes "proba_iteration s = Inr s'"
  shows "\<exists>w y. s' = s\<lparr>n_next_i := n_next_i s + 1, iterate := w, next_iterate := y\<rparr>"
proof -
  define s0 where "s0 = s\<lparr>n_next_i := n_next_i s + 1\<rparr>"
  define g where "g = model_grad_i_factor (model s0) (next_i_seq s (n_next_i s)) (iterate s0)
                      - model_grad_i_factor (model s0) (next_i_seq s (n_next_i s)) (fixed_w s0)"
  from assms obtain s1 s2 where
    1: "proba_support_loop s0 g (model_get_features (model s0) (next_i_seq s (n_next_i s))) = Inr s1"
    and 2: "update_intercept (apply_prox_not_separable s1) g = Inr s2"
    and 3: "select_next_iterate (t s2) s2 = Inr s'"
    by (auto simp: proba_iteration_def get_next_i_def Let_def s0_def g_def split: sum.splits)
  obtain w1 where w1: "s1 = s0\<lparr>iterate := w1\<rparr>"
    using proba_support_loop_frame [OF 1] by blast
  obtain w2 where w2: "s2 = s1\<lparr>iterate := w2\<rparr>"
    using 2 keep_iterate [of s2]
    by (auto simp: update_intercept_def apply_prox_not_separable_def split: if_splits)
  obtain y where y: "s' = s2\<lparr>next_iterate := y\<rparr>"
    using select_next_iterate_frame [OF 3] by blast
  have "s' = s\<lparr>n_next_i := n_next_i s + 1, iterate := w2, next_iterate := y\<rparr>"
    unfolding y w2 w1 s0_def by simp
  then show ?thesis by blast
qed

lemma proba_iteration_counters:
  assumes "proba_iteration s = Inr s'"
  shows "t s' = t s" and "epoch_size s' = epoch_size s"
  using proba_iteration_frame [OF assms] by auto

function proba_loop :: "svrg \<Rightarrow> undefined_behaviour + svrg" where
  "proba_loop s =
     (if t s < epoch_size s
      then (case proba_iteration s of
              Inl e \<Rightarrow> Inl e
            | Inr s' \<Rightarrow> proba_loop (s'\<lparr>t := t s' + 1\<rparr>))
      else Inr s)"
  by pat_completeness auto
termination
  by (relation "measure (\<lambda>s. unat (epoch_size s) - unat (t s))")
     (auto simp: ulong_loop_measure proba_iteration_counters)

declare proba_loop.simps [simp del]

definition solve_sparse_proba_updates :: "svrg \<Rightarrow> undefined_behaviour + svrg" where
  "solve_sparse_proba_updates s =
     (case proba_loop (s\<lparr>t := 0\<rparr>) of
        Inl e \<Rightarrow> Inl e
      | Inr s1 \<Rightarrow>
         (let s2 = s1\<lparr>t := t s1 + epoch_size s1\<rparr>
          in Inr (if variance_reduction s2 = Last then s2\<lparr>next_iterate := iterate s2\<rparr> else s2)))"

subsection \<open>solve_sparse_exact_updates\<close>

text \<open>Lines 190 to 194 and 236 to 240: the delay of a coordinate last updated at \<open>last_time_j\<close>.\<close>

definition delay_of :: "ulong \<Rightarrow> ulong \<Rightarrow> ulong" where
  "delay_of tt last_time_j =
     (let last_time_j_plus_one = last_time_j + 1
      in if tt > last_time_j_plus_one then tt - last_time_j_plus_one else 0)"

text \<open>
  Lines 198 to 205 and 241 to 246: the catch-up of coordinate \<open>j\<close>, which the caller
  has checked to be within the arrays.
\<close>

definition catch_up :: "svrg \<Rightarrow> nat \<Rightarrow> ulong \<Rightarrow> svrg" where
  "catch_up s j delay_j =
     (if delay_j > 0 then
        (let w = iterate s ! j - step s * real (unat delay_j) * (full_gradient s ! j);
             w' = (if is_prox_separable s
                   then prox_call_single_n (prox s) w (step s) delay_j else w)
         in s\<lparr>iterate := (iterate s)[j := w']\<rparr>)
      else s)"

text \<open>Lines 188 to 213: the body of the loop over the support of the sampled row.\<close>

definition exact_update_coord :: "svrg \<Rightarrow> real \<Rightarrow> nat \<times> real \<Rightarrow> undefined_behaviour + svrg" where
  "exact_update_coord s grad_i_diff jx =
     (let j = fst jx; x_ij = snd jx
      in if j < length (last_time s) \<and> j < length (full_gradient s) \<and> j < length (iterate s)
         then
           (let delay_j = delay_of (t s) (last_time s ! j);
                full_gradient_j = full_gradient s ! j;
                s1 = catch_up s j delay_j;
                w = iterate s1 ! j - step s1 * (x_ij * grad_i_diff + full_gradient_j);
                w' = (if is_prox_separable s1 then prox_call_single (prox s1) w (step s1) else w)
            in Inr (s1\<lparr>iterate := (iterate s1)[j := w'], last_time := (last_time s1)[j := t s1]\<rparr>))
         else Inl OutOfBounds)"

fun exact_support_loop :: "svrg \<Rightarrow> real \<Rightarrow> sparse_vec \<Rightarrow> undefined_behaviour + svrg" where
  "exact_support_loop s grad_i_diff [] = Inr s"
| "exact_support_loop s grad_i_diff (jx # x_rest) =
     (case exact_update_coord s grad_i_diff jx of
        Inl e \<Rightarrow> Inl e
      | Inr s' \<Rightarrow> exact_support_loop s' grad_i_diff x_rest)"

definition exact_iteration :: "svrg \<Rightarrow> undefined_behaviour + svrg" where
  "exact_iteration s0 =
     (let (i, s) = get_next_i s0;
          x_i = model_get_features (model s) i;
          grad_i_diff = model_grad_i_factor (model s) i (iterate s)
                          - model_grad_i_factor (model s) i (fixed_w s)
      in case exact_support_loop s grad_i_diff x_i of
           Inl e \<Rightarrow> Inl e
         | Inr s1 \<Rightarrow>
            (case update_intercept (apply_prox_not_separable s1) grad_i_diff of
               Inl e \<Rightarrow> Inl e
             | Inr s2 \<Rightarrow> select_next_iterate (t s2) s2))"

lemma keep_iterate_last_time:
  "\<exists>w l. (s :: svrg) = s\<lparr>iterate := w, last_time := l\<rparr>"
  by (rule exI [of _ "iterate s"], rule exI [of _ "last_time s"]) simp

lemma catch_up_frame: "\<exists>w. catch_up s j d = s\<lparr>iterate := w\<rparr>"
  by (auto simp: catch_up_def Let_def keep_iterate)

lemma exact_update_coord_frame:
  assumes "exact_update_coord s g jx = Inr s'"
  shows "\<exists>w l. s' = s\<lparr>iterate := w, last_time := l\<rparr>"
proof -
  obtain w0 where w0: "catch_up s (fst jx) (delay_of (t s) (last_time s ! fst jx)) = s\<lparr>iterate := w0\<rparr>"
    using catch_up_frame by blast
  show ?thesis
    using assms unfolding exact_update_coord_def Let_def w0
    by (auto split: if_splits)
qed

lemma exact_support_loop_frame:
  "exact_support_loop s g xs = Inr s' \<Longrightarrow> \<exists>w l. s' = s\<lparr>iterate := w, last_time := l\<rparr>"
proof (induction xs arbitrary: s)
  case Nil
  then show ?case
    using keep_iterate_last_time [of s] by simp
next
  case (Cons jx xs)
  from Cons.prems obtain s1 where
    1: "exact_update_coord s g jx = Inr s1" and 2: "exact_support_loop s1 g xs = Inr s'"
    by (auto split: sum.splits)
  obtain w l where w: "s' = s1\<lparr>iterate := w, last_time := l\<rparr>"
    using Cons.IH [OF 2] by blast
  obtain w1 l1 where w1: "s1 = s\<lparr>iterate := w1, last_time := l1\<rparr>"
    using exact_update_coord_frame [OF 1] by blast
  have "s' = s\<lparr>iterate := w, last_time := l\<rparr>"
    unfolding w w1 by simp
  then show ?case by blast
qed

lemma exact_iteration_frame:
  assumes "exact_iteration s = Inr s'"
  shows "\<exists>w l y. s' = s\<lparr>n_next_i := n_next_i s + 1, iterate := w, last_time := l,
                              next_iterate := y\<rparr>"
proof -
  define s0 where "s0 = s\<lparr>n_next_i := n_next_i s + 1\<rparr>"
  define g where "g = model_grad_i_factor (model s0) (next_i_seq s (n_next_i s)) (iterate s0)
                      - model_grad_i_factor (model s0) (next_i_seq s (n_next_i s)) (fixed_w s0)"
  from assms obtain s1 s2 where
    1: "exact_support_loop s0 g (model_get_features (model s0) (next_i_seq s (n_next_i s))) = Inr s1"
    and 2: "update_intercept (apply_prox_not_separable s1) g = Inr s2"
    and 3: "select_next_iterate (t s2) s2 = Inr s'"
    by (auto simp: exact_iteration_def get_next_i_def Let_def s0_def g_def split: sum.splits)
  obtain w1 l1 where w1: "s1 = s0\<lparr>iterate := w1, last_time := l1\<rparr>"
    using exact_support_loop_frame [OF 1] by blast
  obtain w2 where w2: "s2 = s1\<lparr>iterate := w2\<rparr>"
    using 2 keep_iterate [of s2]
    by (auto simp: update_intercept_def apply_prox_not_separable_def split: if_splits)
  obtain y where y: "s' = s2\<lparr>next_iterate := y\<rparr>"
    using select_next_iterate_frame [OF 3] by blast
  have "s' = s\<lparr>n_next_i := n_next_i s + 1, iterate := w2, last_time := l1, next_iterate := y\<rparr>"
    unfolding y w2 w1 s0_def by simp
  then show ?thesis by blast
qed

lemma exact_iteration_counters:
  assumes "exact_iteration s = Inr s'"
  shows "t s' = t s" and "epoch_size s' = epoch_size s"
  using exact_iteration_frame [OF assms] by auto

function exact_loop :: "svrg \<Rightarrow> undefined_behaviour + svrg" where
  "exact_loop s =
     (if t s < epoch_size s
      then (case exact_iteration s of
              Inl e \<Rightarrow> Inl e
            | Inr s' \<Rightarrow> exact_loop (s'\<lparr>t := t s' + 1\<rparr>))
      else Inr s)"
  by pat_completeness auto
termination
  by (relation "measure (\<lambda>s. unat (epoch_size s) - unat (t s))")
     (auto simp: ulong_loop_measure exact_iteration_counters)

declare exact_loop.simps [simp del]

text \<open>
  Lines 235 to 247: the pass over the features at the end of the epoch. \<^verbatim>\<open>last_time[j]\<close>
  is read for every feature, \<^verbatim>\<open>iterate[j]\<close> and \<^verbatim>\<open>full_gradient[j]\<close> only when there is a
  delay.
\<close>

fun finalize_loop :: "svrg \<Rightarrow> nat list \<Rightarrow> undefined_behaviour + svrg" where
  "finalize_loop s [] = Inr s"
| "finalize_loop s (j # js) =
     (if j < length (last_time s) then
        (let delay_j = delay_of (t s) (last_time s ! j)
         in if delay_j > 0 \<and> \<not> (j < length (full_gradient s) \<and> j < length (iterate s))
            then Inl OutOfBounds
            else finalize_loop (catch_up s j delay_j) js)
      else Inl OutOfBounds)"

definition solve_sparse_exact_updates :: "svrg \<Rightarrow> undefined_behaviour + svrg" where
  "solve_sparse_exact_updates s =
     (case exact_loop (s\<lparr>t := 0\<rparr>) of
        Inl e \<Rightarrow> Inl e
      | Inr s1 \<Rightarrow>
         (case finalize_loop s1 [0..<n_features s1] of
            Inl e \<Rightarrow> Inl e
          | Inr s2 \<Rightarrow>
             (let s3 = s2\<lparr>t := t s2 + epoch_size s2\<rparr>
              in Inr (if variance_reduction s3 = Last then s3\<lparr>next_iterate := iterate s3\<rparr> else s3))))"

subsection \<open>solve\<close>

definition solve :: "svrg \<Rightarrow> undefined_behaviour + svrg" where
  "solve s =
     (case prepare_solve s of
        Inl e \<Rightarrow> Inl e
      | Inr s1 \<Rightarrow>
         (if model_is_sparse (model s1) then
            (case (if delayed_updates s1 = Exact then solve_sparse_exact_updates s1 else Inr s1) of
               Inl e \<Rightarrow> Inl e
             | Inr s2 \<Rightarrow>
                (if delayed_updates s2 = Proba then solve_sparse_proba_updates s2 else Inr s2))
          else solve_dense s1))"

section \<open>Partial and sequential executions\<close>

text \<open>The caller of the solver runs one epoch after the other.\<close>

primrec solve_epochs :: "nat \<Rightarrow> svrg \<Rightarrow> undefined_behaviour + svrg" where
  "solve_epochs 0 s = Inr s"
| "solve_epochs (Suc n) s =
     (case solve s of Inl e \<Rightarrow> Inl e | Inr s' \<Rightarrow> solve_epochs n s')"





text \<open>Lines 140 to 144: the value that the visit of the coordinate \<open>j\<close> writes.\<close>

definition proba_value :: "svrg \<Rightarrow> real \<Rightarrow> nat \<Rightarrow> real \<Rightarrow> real" where
  "proba_value s grad_i_diff j x_ij =
     (let w = iterate s ! j
                - step s * (x_ij * grad_i_diff + steps_correction s ! j * full_gradient s ! j)
      in if is_prox_separable s
         then prox_call_single (prox s) w (step s * steps_correction s ! j) else w)"

text \<open>
  The sequential form of the catch-up, after the words of the specification: at each of
  the \<open>d\<close> skipped iterations the coordinate receives one decrement by the full gradient,
  of one step, and then one application of the prox, of one step.
\<close>

definition sequential_catch_up :: "ProxPtr \<Rightarrow> real \<Rightarrow> nat \<Rightarrow> real \<Rightarrow> real \<Rightarrow> real" where
  "sequential_catch_up p stp d g w = ((\<lambda>v. prox_call_single p (v - stp * g) stp) ^^ d) w"

text \<open>
  Another order of the same steps: the \<open>d\<close> decrements first, then the \<open>d\<close> applications
  of the prox.
\<close>

definition decrements_then_prox :: "ProxPtr \<Rightarrow> real \<Rightarrow> nat \<Rightarrow> real \<Rightarrow> real \<Rightarrow> real" where
  "decrements_then_prox p stp d g w =
     ((\<lambda>v. prox_call_single p v stp) ^^ d) (((\<lambda>v. v - stp * g) ^^ d) w)"

text \<open>The update of a coordinate of the support, followed by the prox of one step.\<close>

definition support_update :: "ProxPtr \<Rightarrow> real \<Rightarrow> real \<Rightarrow> real \<Rightarrow> real \<Rightarrow> real \<Rightarrow> real" where
  "support_update p stp g x_ij grad_i_diff w =
     prox_call_single p (w - stp * (x_ij * grad_i_diff + g)) stp"

section \<open>Example solvers\<close>

text \<open>
  The state of a solver after its construction and the calls of \<^verbatim>\<open>set_model\<close>,
  \<^verbatim>\<open>set_prox\<close> and \<^verbatim>\<open>set_starting_iterate\<close>.
\<close>

definition configured ::
  "ulong \<Rightarrow> real \<Rightarrow> VarianceReductionMethod \<Rightarrow> DelayedUpdatesMethod \<Rightarrow> ModelPtr \<Rightarrow> ProxPtr
     \<Rightarrow> real list \<Rightarrow> (nat \<Rightarrow> nat) \<Rightarrow> (nat \<Rightarrow> ulong \<Rightarrow> ulong) \<Rightarrow> svrg" where
  "configured n stp vr du m p w0 sampler rng =
     set_starting_iterate w0 (set_prox p (set_model m
       \<lparr>epoch_size = n, t = 0, iterate = [], model = m, prox = p,
        next_i_seq = sampler, n_next_i = 0, rand_unif_seq = rng, n_rand_unif = 0,
        step = stp, variance_reduction = vr, delayed_updates = du,
        ready_step_corrections = False, is_model_sparse = False, n_features = 0,
        use_intercept = False, is_prox_separable = False, fixed_w = [], full_gradient = [],
        next_iterate = [], grad_i = [], grad_i_fixed_w = [], steps_correction = [],
        last_time = [], rand_index = 0\<rparr>))"

text \<open>The prox of a zero penalty: the identity, separable.\<close>

definition prox_zero :: ProxPtr where
  "prox_zero = \<lparr>prox_is_separable = True, prox_call = (\<lambda>w st j. w ! j),
                 prox_call_single = (\<lambda>x st. x), prox_call_single_n = (\<lambda>x st n. x)\<rparr>"

text \<open>
  A sparse model with one feature and three samples, the feature being 1 in the
  samples 0 and 1 and 0 in the sample 2: two of the three samples are not zero there.
\<close>

definition model_three_samples :: ModelPtr where
  "model_three_samples =
     \<lparr>model_is_sparse = True, model_get_n_features = 1, model_get_n_samples = 3,
      model_use_intercept = False, model_grad = (\<lambda>w j. 0), model_grad_i = (\<lambda>i w j. 0),
      model_grad_i_factor = (\<lambda>i w. 0),
      model_get_features = (\<lambda>i. if i = 2 then [] else [(0, 1)]),
      model_compute_columns_non_zeros = (\<lambda>j. 2)\<rparr>"

definition solver_three_samples :: svrg where
  "solver_three_samples =
     configured 1 1 Last Proba model_three_samples prox_zero [0] (\<lambda>k. 0) (\<lambda>k m. 0)"

text \<open>
  A sparse model with two features and two samples, the feature 1 being zero in both.
\<close>

definition model_zero_column :: ModelPtr where
  "model_zero_column =
     \<lparr>model_is_sparse = True, model_get_n_features = 2, model_get_n_samples = 2,
      model_use_intercept = False, model_grad = (\<lambda>w j. 0), model_grad_i = (\<lambda>i w j. 0),
      model_grad_i_factor = (\<lambda>i w. 0),
      model_get_features = (\<lambda>i. [(0, 1)]),
      model_compute_columns_non_zeros = (\<lambda>j. if j = 0 then 2 else 0)\<rparr>"

definition solver_zero_column :: svrg where
  "solver_zero_column =
     configured 1 1 Last Proba model_zero_column prox_zero [0, 0] (\<lambda>k. 0) (\<lambda>k m. 0)"

text \<open>
  A least-squares model with one feature and two samples: the feature is 0 in the sample
  0, whose label is 0, and 1 in the sample 1, whose label is -2. The gradient factor of
  the sample \<open>i\<close> at \<open>w\<close> is \<open>x\<^sub>i * w - y\<^sub>i\<close>, its gradient is the factor times \<open>x\<^sub>i\<close>,
  and the full gradient is the mean of the two. The argument says whether the model
  presents its features as sparse rows.
\<close>

definition model_least_squares :: "bool \<Rightarrow> ModelPtr" where
  "model_least_squares sparse =
     \<lparr>model_is_sparse = sparse, model_get_n_features = 1, model_get_n_samples = 2,
      model_use_intercept = False,
      model_grad = (\<lambda>w j. (w ! 0 + 2) / 2),
      model_grad_i = (\<lambda>i w j. if i = 0 then 0 else w ! 0 + 2),
      model_grad_i_factor = (\<lambda>i w. if i = 0 then 0 else w ! 0 + 2),
      model_get_features = (\<lambda>i. if i = 0 then [] else [(0, 1)]),
      model_compute_columns_non_zeros = (\<lambda>j. 1)\<rparr>"

text \<open>
  Solvers on this model with an epoch of three iterations, the step 1, the starting
  iterate 0 and a sampler that draws the sample 0 each time.
\<close>

definition solver_exact :: svrg where
  "solver_exact =
     configured 3 1 Last Exact (model_least_squares True) prox_zero [0] (\<lambda>k. 0) (\<lambda>k m. 0)"

definition solver_proba :: svrg where
  "solver_proba =
     configured 3 1 Last Proba (model_least_squares True) prox_zero [0] (\<lambda>k. 0) (\<lambda>k m. 0)"

definition solver_dense :: svrg where
  "solver_dense =
     configured 3 1 Last Exact (model_least_squares False) prox_zero [0] (\<lambda>k. 0) (\<lambda>k m. 0)"

definition solver_unrecognized :: svrg where
  "solver_unrecognized =
     configured 3 1 Last Unrecognized (model_least_squares True) prox_zero [0] (\<lambda>k. 0) (\<lambda>k m. 0)"

text \<open>A prox that projects on the vectors without a negative coordinate, whatever the step.\<close>

definition prox_positive :: ProxPtr where
  "prox_positive = \<lparr>prox_is_separable = True, prox_call = (\<lambda>w st j. max 0 (w ! j)),
                     prox_call_single = (\<lambda>x st. max 0 x),
                     prox_call_single_n = (\<lambda>x st n. max 0 x)\<rparr>"

text \<open>The prox of the penalty \<open>x\<^sup>2 / 2\<close>: a division by \<open>1 + step\<close>, separable.\<close>

definition prox_ridge :: ProxPtr where
  "prox_ridge = \<lparr>prox_is_separable = True, prox_call = (\<lambda>w st j. w ! j / (1 + st)),
                  prox_call_single = (\<lambda>x st. x / (1 + st)),
                  prox_call_single_n = (\<lambda>x st n. x / (1 + st) ^ unat n)\<rparr>"

definition solver_zero_step :: "ProxPtr \<Rightarrow> svrg" where
  "solver_zero_step p =
     configured 2 0 Last Exact (model_least_squares False) p [- 1] (\<lambda>k. 1) (\<lambda>k m. 0)"



definition solver_proba_ridge :: svrg where
  "solver_proba_ridge =
     configured 3 1 Last Proba (model_least_squares True) prox_ridge [0] (\<lambda>k. 1) (\<lambda>k m. 0)"

definition solver_exact_ridge :: svrg where
  "solver_exact_ridge =
     configured 5 1 Last Exact (model_least_squares True) prox_ridge [3] (\<lambda>k. 1) (\<lambda>k m. 0)"

lemmas example_defs =
  configured_def set_model_def set_prox_def set_starting_iterate_def prox_zero_def
  model_least_squares_def

lemmas routine_defs =
  solve_def prepare_solve_def compute_step_corrections_def rand_unif_def get_next_i_def
  solve_dense_def dense_loop.simps dense_iteration_def select_next_iterate_def mult_incr_def
  solve_sparse_proba_updates_def proba_loop.simps proba_iteration_def proba_update_coord_def
  apply_prox_not_separable_def update_intercept_def
  solve_sparse_exact_updates_def exact_loop.simps exact_iteration_def exact_update_coord_def
  catch_up_def delay_of_def Let_def

section \<open>Properties\<close>

subsection \<open>What the routines leave unchanged\<close>

lemma keep_loop_fields:
  "\<exists>a k w y. (s :: svrg) = s\<lparr>t := a, n_next_i := k, iterate := w, next_iterate := y\<rparr>"
  by (rule exI [of _ "t s"], rule exI [of _ "n_next_i s"], rule exI [of _ "iterate s"],
      rule exI [of _ "next_iterate s"]) simp

lemma proba_loop_frame:
  "proba_loop s = Inr s' \<Longrightarrow>
     \<exists>a k w y. s' = s\<lparr>t := a, n_next_i := k, iterate := w, next_iterate := y\<rparr>"
proof (induction s rule: proba_loop.induct)
  case (1 s)
  show ?case
  proof (cases "t s < epoch_size s")
    case True
    with "1.prems" obtain s1 where
      it: "proba_iteration s = Inr s1" and rest: "proba_loop (s1\<lparr>t := t s1 + 1\<rparr>) = Inr s'"
      by (auto simp: proba_loop.simps [of s] split: sum.splits)
    obtain a k w y where
      e: "s' = (s1\<lparr>t := t s1 + 1\<rparr>)\<lparr>t := a, n_next_i := k, iterate := w, next_iterate := y\<rparr>"
      using "1.IH" [OF True it rest] by blast
    obtain w1 y1 where
      e1: "s1 = s\<lparr>n_next_i := n_next_i s + 1, iterate := w1, next_iterate := y1\<rparr>"
      using proba_iteration_frame [OF it] by blast
    have "s' = s\<lparr>t := a, n_next_i := k, iterate := w, next_iterate := y\<rparr>"
      unfolding e by (subst e1, subst e1) simp
    then show ?thesis by blast
  next
    case False
    with "1.prems" have "s' = s"
      by (simp add: proba_loop.simps [of s])
    then show ?thesis
      using keep_loop_fields [of s] by simp
  qed
qed

lemma proba_loop_counter:
  "proba_loop s = Inr s' \<Longrightarrow> t s \<le> epoch_size s \<Longrightarrow> t s' = epoch_size s"
proof (induction s rule: proba_loop.induct)
  case (1 s)
  show ?case
  proof (cases "t s < epoch_size s")
    case True
    with "1.prems" obtain s1 where
      it: "proba_iteration s = Inr s1" and rest: "proba_loop (s1\<lparr>t := t s1 + 1\<rparr>) = Inr s'"
      by (auto simp: proba_loop.simps [of s] split: sum.splits)
    have c: "t s1 = t s" "epoch_size s1 = epoch_size s"
      using proba_iteration_counters [OF it] by simp_all
    have "t s + 1 \<le> epoch_size s"
      using True by (rule inc_le)
    then show ?thesis
      using "1.IH" [OF True it rest] c by simp
  next
    case False
    with "1.prems" show ?thesis
      by (simp add: proba_loop.simps [of s])
  qed
qed

lemma keep_exact_fields:
  "\<exists>a k w l y. (s :: svrg)
      = s\<lparr>t := a, n_next_i := k, iterate := w, last_time := l, next_iterate := y\<rparr>"
  by (rule exI [of _ "t s"], rule exI [of _ "n_next_i s"], rule exI [of _ "iterate s"],
      rule exI [of _ "last_time s"], rule exI [of _ "next_iterate s"]) simp

lemma exact_loop_frame:
  "exact_loop s = Inr s' \<Longrightarrow>
     \<exists>a k w l y. s' = s\<lparr>t := a, n_next_i := k, iterate := w, last_time := l, next_iterate := y\<rparr>"
proof (induction s rule: exact_loop.induct)
  case (1 s)
  show ?case
  proof (cases "t s < epoch_size s")
    case True
    with "1.prems" obtain s1 where
      it: "exact_iteration s = Inr s1" and rest: "exact_loop (s1\<lparr>t := t s1 + 1\<rparr>) = Inr s'"
      by (auto simp: exact_loop.simps [of s] split: sum.splits)
    obtain a k w l y where
      e: "s' = (s1\<lparr>t := t s1 + 1\<rparr>)
                \<lparr>t := a, n_next_i := k, iterate := w, last_time := l, next_iterate := y\<rparr>"
      using "1.IH" [OF True it rest] by blast
    obtain w1 l1 y1 where
      e1: "s1 = s\<lparr>n_next_i := n_next_i s + 1, iterate := w1, last_time := l1, next_iterate := y1\<rparr>"
      using exact_iteration_frame [OF it] by blast
    have "s' = s\<lparr>t := a, n_next_i := k, iterate := w, last_time := l, next_iterate := y\<rparr>"
      unfolding e by (subst e1, subst e1) simp
    then show ?thesis by blast
  next
    case False
    with "1.prems" have "s' = s"
      by (simp add: exact_loop.simps [of s])
    then show ?thesis
      using keep_exact_fields [of s] by simp
  qed
qed

lemma exact_loop_counter:
  "exact_loop s = Inr s' \<Longrightarrow> t s \<le> epoch_size s \<Longrightarrow> t s' = epoch_size s"
proof (induction s rule: exact_loop.induct)
  case (1 s)
  show ?case
  proof (cases "t s < epoch_size s")
    case True
    with "1.prems" obtain s1 where
      it: "exact_iteration s = Inr s1" and rest: "exact_loop (s1\<lparr>t := t s1 + 1\<rparr>) = Inr s'"
      by (auto simp: exact_loop.simps [of s] split: sum.splits)
    have c: "t s1 = t s" "epoch_size s1 = epoch_size s"
      using exact_iteration_counters [OF it] by simp_all
    have "t s + 1 \<le> epoch_size s"
      using True by (rule inc_le)
    then show ?thesis
      using "1.IH" [OF True it rest] c by simp
  next
    case False
    with "1.prems" show ?thesis
      by (simp add: exact_loop.simps [of s])
  qed
qed

lemma finalize_loop_frame:
  "finalize_loop s js = Inr s' \<Longrightarrow> \<exists>w. s' = s\<lparr>iterate := w\<rparr>"
proof (induction js arbitrary: s)
  case Nil
  then show ?case
    using keep_iterate [of s] by simp
next
  case (Cons j js)
  define s1 where "s1 = catch_up s j (delay_of (t s) (last_time s ! j))"
  from Cons.prems have 2: "finalize_loop s1 js = Inr s'"
    by (auto simp: s1_def Let_def split: if_splits)
  obtain w where w: "s' = s1\<lparr>iterate := w\<rparr>"
    using Cons.IH [OF 2] by blast
  obtain w1 where w1: "s1 = s\<lparr>iterate := w1\<rparr>"
    using catch_up_frame [of s j] unfolding s1_def by blast
  have "s' = s\<lparr>iterate := w\<rparr>"
    unfolding w w1 by simp
  then show ?case ..
qed

lemma dense_iteration_frame:
  assumes "dense_iteration tt s = Inr s'"
  shows "\<exists>a b w y. s' = s\<lparr>n_next_i := n_next_i s + 1, grad_i := a, grad_i_fixed_w := b,
                              iterate := w, next_iterate := y\<rparr>"
proof -
  from assms obtain s4 where
    4: "select_next_iterate tt s4 = Inr s'"
    and e4: "\<exists>a b w. s4 = s\<lparr>n_next_i := n_next_i s + 1, grad_i := a, grad_i_fixed_w := b,
                               iterate := w\<rparr>"
    by (auto simp: dense_iteration_def get_next_i_def Let_def split: if_splits)
  obtain y where y: "s' = s4\<lparr>next_iterate := y\<rparr>"
    using select_next_iterate_frame [OF 4] by blast
  from e4 obtain a b w where
    e: "s4 = s\<lparr>n_next_i := n_next_i s + 1, grad_i := a, grad_i_fixed_w := b, iterate := w\<rparr>"
    by blast
  have "s' = s\<lparr>n_next_i := n_next_i s + 1, grad_i := a, grad_i_fixed_w := b,
                 iterate := w, next_iterate := y\<rparr>"
    unfolding y e by simp
  then show ?thesis by blast
qed

lemma keep_dense_fields:
  "\<exists>k a b w y. (s :: svrg)
      = s\<lparr>n_next_i := k, grad_i := a, grad_i_fixed_w := b, iterate := w, next_iterate := y\<rparr>"
  by (rule exI [of _ "n_next_i s"], rule exI [of _ "grad_i s"], rule exI [of _ "grad_i_fixed_w s"],
      rule exI [of _ "iterate s"], rule exI [of _ "next_iterate s"]) simp

lemma dense_loop_frame:
  "dense_loop tt s = Inr s' \<Longrightarrow>
     \<exists>k a b w y. s' = s\<lparr>n_next_i := k, grad_i := a, grad_i_fixed_w := b, iterate := w,
                            next_iterate := y\<rparr>"
proof (induction tt s rule: dense_loop.induct)
  case (1 tt s)
  show ?case
  proof (cases "tt < epoch_size s")
    case True
    with "1.prems" obtain s1 where
      it: "dense_iteration tt s = Inr s1" and rest: "dense_loop (tt + 1) s1 = Inr s'"
      by (auto simp: dense_loop.simps [of tt s] split: sum.splits)
    obtain k a b w y where
      e: "s' = s1\<lparr>n_next_i := k, grad_i := a, grad_i_fixed_w := b, iterate := w, next_iterate := y\<rparr>"
      using "1.IH" [OF True it rest] by blast
    obtain a1 b1 w1 y1 where
      e1: "s1 = s\<lparr>n_next_i := n_next_i s + 1, grad_i := a1, grad_i_fixed_w := b1,
                     iterate := w1, next_iterate := y1\<rparr>"
      using dense_iteration_frame [OF it] by blast
    have "s' = s\<lparr>n_next_i := k, grad_i := a, grad_i_fixed_w := b, iterate := w, next_iterate := y\<rparr>"
      unfolding e by (subst e1) simp
    then show ?thesis by blast
  next
    case False
    with "1.prems" have "s' = s"
      by (simp add: dense_loop.simps [of tt s])
    then show ?thesis
      using keep_dense_fields [of s] by simp
  qed
qed

lemma prepare_solve_keeps:
  assumes "prepare_solve s = Inr s1"
  shows "t s1 = t s" and "epoch_size s1 = epoch_size s" and "model s1 = model s"
    and "delayed_updates s1 = delayed_updates s" and "iterate s1 = iterate s"
    and "step s1 = step s" and "prox s1 = prox s"
    and "variance_reduction s1 = variance_reduction s"
    and "is_model_sparse s1 = is_model_sparse s"
  using assms
  by (auto simp: prepare_solve_def compute_step_corrections_def rand_unif_def Let_def
           split: if_splits sum.splits prod.splits)

lemma solve_sparse_proba_updates_counter:
  assumes "solve_sparse_proba_updates s = Inr s'"
  shows "t s' = 2 * epoch_size s"
proof -
  from assms obtain s1 where
    l: "proba_loop (s\<lparr>t := 0\<rparr>) = Inr s1" and t': "t s' = t s1 + epoch_size s1"
    by (auto simp: solve_sparse_proba_updates_def Let_def split: sum.splits if_splits)
  have "t s1 = epoch_size s"
    using proba_loop_counter [OF l] by simp
  moreover have "epoch_size s1 = epoch_size s"
    using proba_loop_frame [OF l] by auto
  ultimately show ?thesis
    using t' by simp
qed

lemma solve_sparse_exact_updates_counter:
  assumes "solve_sparse_exact_updates s = Inr s'"
  shows "t s' = 2 * epoch_size s"
proof -
  from assms obtain s1 s2 where
    l: "exact_loop (s\<lparr>t := 0\<rparr>) = Inr s1"
    and f: "finalize_loop s1 [0..<n_features s1] = Inr s2"
    and t': "t s' = t s2 + epoch_size s2"
    by (auto simp: solve_sparse_exact_updates_def Let_def split: sum.splits if_splits)
  have "t s1 = epoch_size s"
    using exact_loop_counter [OF l] by simp
  moreover have "epoch_size s1 = epoch_size s"
    using exact_loop_frame [OF l] by auto
  moreover have "t s2 = t s1 \<and> epoch_size s2 = epoch_size s1"
    using finalize_loop_frame [OF f] by auto
  ultimately show ?thesis
    using t' by simp
qed

lemma solve_sparse_exact_updates_policy:
  assumes "solve_sparse_exact_updates s = Inr s'"
  shows "delayed_updates s' = delayed_updates s"
proof -
  from assms obtain s1 s2 where
    l: "exact_loop (s\<lparr>t := 0\<rparr>) = Inr s1"
    and f: "finalize_loop s1 [0..<n_features s1] = Inr s2"
    and d: "delayed_updates s' = delayed_updates s2"
    by (auto simp: solve_sparse_exact_updates_def Let_def split: sum.splits if_splits)
  have "delayed_updates s1 = delayed_updates s"
    using exact_loop_frame [OF l] by auto
  moreover have "delayed_updates s2 = delayed_updates s1"
    using finalize_loop_frame [OF f] by auto
  ultimately show ?thesis
    using d by simp
qed

lemma solve_dense_counter:
  assumes "solve_dense s = Inr s'"
  shows "t s' = t s + epoch_size s"
proof -
  from assms obtain s1 where
    l: "dense_loop 0 s = Inr s1" and t': "t s' = t s1 + epoch_size s1"
    by (auto simp: solve_dense_def Let_def split: sum.splits if_splits)
  have "t s1 = t s \<and> epoch_size s1 = epoch_size s"
    using dense_loop_frame [OF l] by auto
  then show ?thesis
    using t' by simp
qed

lemma solve_cases:
  "solve s =
     (case prepare_solve s of
        Inl e \<Rightarrow> Inl e
      | Inr s1 \<Rightarrow>
         (if model_is_sparse (model s1) then
            (case delayed_updates s1 of
               Exact \<Rightarrow> solve_sparse_exact_updates s1
             | Proba \<Rightarrow> solve_sparse_proba_updates s1
             | Unrecognized \<Rightarrow> Inr s1)
          else solve_dense s1))"
proof (cases "prepare_solve s")
  case (Inl e)
  then show ?thesis by (simp add: solve_def)
next
  case (Inr s1)
  show ?thesis
  proof (cases "delayed_updates s1")
    case Exact
    have "delayed_updates s2 \<noteq> Proba" if "solve_sparse_exact_updates s1 = Inr s2" for s2
      using solve_sparse_exact_updates_policy [OF that] Exact by simp
    then show ?thesis
      using Inr Exact by (auto simp: solve_def split: sum.splits)
  next
    case Proba
    then show ?thesis using Inr by (simp add: solve_def)
  next
    case Unrecognized
    then show ?thesis using Inr by (simp add: solve_def)
  qed
qed

lemma compute_step_corrections_ready:
  "ready_step_corrections s \<Longrightarrow> compute_step_corrections s = Inr s"
  by (simp add: compute_step_corrections_def)

lemma prepare_solve_step_corrections:
  assumes "prepare_solve s = Inr s1" and "is_model_sparse s" and "model_is_sparse (model s)"
    and "delayed_updates s = Proba"
  shows "ready_step_corrections s1"
    and "ready_step_corrections s \<Longrightarrow> steps_correction s1 = steps_correction s"
    and "\<not> ready_step_corrections s \<Longrightarrow>
           step_corrections_loop (model_get_n_samples (model s))
             (map (model_compute_columns_non_zeros (model s)) [0..<model_get_n_features (model s)])
           = Inr (steps_correction s1)"
  using assms
  by (auto simp: prepare_solve_def compute_step_corrections_def rand_unif_def Let_def
           split: if_splits sum.splits prod.splits)

lemma solve_sparse_proba_updates_keeps:
  assumes "solve_sparse_proba_updates s = Inr s'"
  shows "ready_step_corrections s' = ready_step_corrections s"
    and "steps_correction s' = steps_correction s"
proof -
  from assms obtain s1 where
    l: "proba_loop (s\<lparr>t := 0\<rparr>) = Inr s1"
    and e: "s' = s1\<lparr>t := t s1 + epoch_size s1\<rparr>
              \<or> s' = s1\<lparr>t := t s1 + epoch_size s1, next_iterate := iterate s1\<rparr>"
    by (auto simp: solve_sparse_proba_updates_def Let_def split: sum.splits if_splits)
  have "ready_step_corrections s1 = ready_step_corrections s \<and> steps_correction s1 = steps_correction s"
    using proba_loop_frame [OF l] by auto
  then show "ready_step_corrections s' = ready_step_corrections s"
    and "steps_correction s' = steps_correction s"
    using e by auto
qed

subsection \<open>The dense routine with a zero step\<close>

lemma dense_iteration_zero_step:
  assumes "dense_iteration tt s = Inr s'" and "step s = 0"
    and "\<forall>w j. j < length w \<longrightarrow> prox_call (prox s) w 0 j = w ! j"
  shows "iterate s' = iterate s"
proof -
  define s0 where "s0 = s\<lparr>n_next_i := n_next_i s + 1\<rparr>"
  define i where "i = next_i_seq s (n_next_i s)"
  define s2 where "s2 = s0\<lparr>grad_i := map (model_grad_i (model s0) i (iterate s0)) [0..<length (grad_i s0)],
                         grad_i_fixed_w := map (model_grad_i (model s0) i (fixed_w s0))
                                             [0..<length (grad_i_fixed_w s0)]\<rparr>"
  define s3 where "s3 = s2\<lparr>iterate :=
                        map (\<lambda>j. iterate s2 ! j
                                   - step s2 * (grad_i s2 ! j - grad_i_fixed_w s2 ! j + full_gradient s2 ! j))
                            [0..<length (iterate s2)]\<rparr>"
  define s4 where "s4 = s3\<lparr>iterate := map (prox_call (prox s3) (iterate s3) (step s3))
                                         [0..<length (iterate s3)]\<rparr>"
  have sel: "select_next_iterate tt s4 = Inr s'"
    using assms(1)
    by (auto simp: dense_iteration_def get_next_i_def Let_def s0_def i_def s2_def s3_def s4_def
             split: if_splits)
  have "step s2 = 0" and i2: "iterate s2 = iterate s" and p2: "prox s2 = prox s"
    using assms(2) by (simp_all add: s2_def s0_def)
  then have i3: "iterate s3 = iterate s" and st3: "step s3 = 0" and p3: "prox s3 = prox s"
    by (simp_all add: s3_def map_nth)
  have "map (prox_call (prox s) (iterate s) 0) [0..<length (iterate s)]
          = map (\<lambda>j. iterate s ! j) [0..<length (iterate s)]"
    using assms(3) by simp
  then have "iterate s4 = iterate s"
    by (simp add: s4_def i3 st3 p3 map_nth)
  moreover have "iterate s' = iterate s4"
    using select_next_iterate_frame [OF sel] by auto
  ultimately show ?thesis
    by simp
qed

lemma dense_loop_zero_step:
  "dense_loop tt s = Inr s' \<Longrightarrow> step s = 0 \<Longrightarrow>
     \<forall>w j. j < length w \<longrightarrow> prox_call (prox s) w 0 j = w ! j \<Longrightarrow> iterate s' = iterate s"
proof (induction tt s rule: dense_loop.induct)
  case (1 tt s)
  show ?case
  proof (cases "tt < epoch_size s")
    case True
    with "1.prems"(1) obtain s1 where
      it: "dense_iteration tt s = Inr s1" and rest: "dense_loop (tt + 1) s1 = Inr s'"
      by (auto simp: dense_loop.simps [of tt s] split: sum.splits)
    have k: "step s1 = step s \<and> prox s1 = prox s"
      using dense_iteration_frame [OF it] by auto
    have "iterate s1 = iterate s"
      using dense_iteration_zero_step [OF it "1.prems"(2,3)] .
    moreover have "iterate s' = iterate s1"
      using "1.IH" [OF True it rest] "1.prems"(2,3) k by simp
    ultimately show ?thesis by simp
  next
    case False
    with "1.prems"(1) show ?thesis
      by (simp add: dense_loop.simps [of tt s])
  qed
qed

lemma solve_dense_keeps:
  assumes "solve_dense s = Inr s'"
  shows "step s' = step s" and "prox s' = prox s" and "model s' = model s"
proof -
  from assms obtain s1 where
    l: "dense_loop 0 s = Inr s1"
    and e: "s' = s1\<lparr>t := t s1 + epoch_size s1\<rparr>
              \<or> s' = s1\<lparr>next_iterate := iterate s1, t := t s1 + epoch_size s1\<rparr>"
    by (auto simp: solve_dense_def Let_def split: sum.splits if_splits)
  have "step s1 = step s \<and> prox s1 = prox s \<and> model s1 = model s"
    using dense_loop_frame [OF l] by auto
  then show "step s' = step s" and "prox s' = prox s" and "model s' = model s"
    using e by auto
qed

lemma solve_zero_step:
  assumes "solve s = Inr s'" and "\<not> model_is_sparse (model s)" and "step s = 0"
    and "\<forall>w j. j < length w \<longrightarrow> prox_call (prox s) w 0 j = w ! j"
  shows "iterate s' = iterate s" and "step s' = step s" and "prox s' = prox s"
    and "model s' = model s"
proof -
  from assms(1) obtain s1 where p: "prepare_solve s = Inr s1"
    by (auto simp: solve_def split: sum.splits)
  note k = prepare_solve_keeps [OF p]
  have d: "solve_dense s1 = Inr s'"
    using assms(1,2) k by (simp add: solve_cases p)
  then obtain s2 where
    l: "dense_loop 0 s1 = Inr s2" and i: "iterate s' = iterate s2"
    by (auto simp: solve_dense_def Let_def split: sum.splits if_splits)
  have "iterate s2 = iterate s1"
    using dense_loop_zero_step [OF l] assms(3,4) k by simp
  then show "iterate s' = iterate s"
    using i k by simp
  show "step s' = step s" and "prox s' = prox s" and "model s' = model s"
    using solve_dense_keeps [OF d] k by simp_all
qed

subsection \<open>The snapshot of the policy Random\<close>












subsection \<open>The loop over the support in the probabilistic routine\<close>

lemma proba_update_coord_value:
  assumes "j < length (iterate s)" and "j < length (full_gradient s)"
    and "j < length (steps_correction s)"
  shows "proba_update_coord s g (j, x) = Inr (s\<lparr>iterate := (iterate s)[j := proba_value s g j x]\<rparr>)"
  using assms by (simp add: proba_update_coord_def proba_value_def Let_def)

lemma proba_support_loop_values:
  assumes "distinct (map fst xs)"
    and "\<forall>j \<in> fst ` set xs. j < length (iterate s) \<and> j < length (full_gradient s)
                               \<and> j < length (steps_correction s)"
  shows "\<exists>s'. proba_support_loop s g xs = Inr s'
            \<and> length (iterate s') = length (iterate s)
            \<and> (\<forall>(j, x) \<in> set xs. iterate s' ! j = proba_value s g j x)
            \<and> (\<forall>j. j \<notin> fst ` set xs \<longrightarrow> iterate s' ! j = iterate s ! j)"
  using assms
proof (induction xs arbitrary: s)
  case Nil
  then show ?case by simp
next
  case (Cons jx xs)
  obtain j x where jx: "jx = (j, x)"
    by (cases jx)
  define s1 where "s1 = s\<lparr>iterate := (iterate s)[j := proba_value s g j x]\<rparr>"
  have inr: "j < length (iterate s)" "j < length (full_gradient s)" "j < length (steps_correction s)"
    using Cons.prems(2) jx by simp_all
  have 1: "proba_update_coord s g jx = Inr s1"
    unfolding jx s1_def by (rule proba_update_coord_value [OF inr])
  have d: "distinct (map fst xs)" and nj: "j \<notin> fst ` set xs"
    using Cons.prems(1) jx by simp_all
  have r: "\<forall>j \<in> fst ` set xs. j < length (iterate s1) \<and> j < length (full_gradient s1)
                               \<and> j < length (steps_correction s1)"
    using Cons.prems(2) by (simp add: s1_def)
  obtain s' where
    l: "proba_support_loop s1 g xs = Inr s'"
    and len: "length (iterate s') = length (iterate s1)"
    and v: "\<forall>(k, y) \<in> set xs. iterate s' ! k = proba_value s1 g k y"
    and o: "\<forall>k. k \<notin> fst ` set xs \<longrightarrow> iterate s' ! k = iterate s1 ! k"
    using Cons.IH [OF d r] by blast
  have same: "proba_value s1 g k y = proba_value s g k y" if "k \<noteq> j" for k y
    using that unfolding s1_def by (simp add: proba_value_def Let_def)
  have "proba_support_loop s g (jx # xs) = Inr s'"
    using 1 l by simp
  moreover have "length (iterate s') = length (iterate s)"
    using len by (simp add: s1_def)
  moreover have "iterate s' ! j = proba_value s g j x"
    using o nj inr(1) by (simp add: s1_def)
  moreover have "iterate s' ! k = proba_value s g k y" if "(k, y) \<in> set xs" for k y
  proof -
    have "k \<noteq> j"
      using that nj by force
    then show ?thesis
      using v that same by auto
  qed
  moreover have "iterate s' ! k = iterate s ! k" if "k \<notin> fst ` set (jx # xs)" for k
  proof -
    have "k \<noteq> j" and "k \<notin> fst ` set xs"
      using that jx by auto
    then show ?thesis
      using o by (simp add: s1_def)
  qed
  ultimately show ?case
    unfolding jx by auto
qed

lemma prox_ridge_batched:
  "((\<lambda>u. prox_call_single prox_ridge u st) ^^ n) v = v / (1 + st) ^ n"
  by (induction n) (simp_all add: prox_ridge_def)

subsection \<open>The catch-up of the exact routine\<close>

lemma sequential_decrements: "((\<lambda>v. v - c) ^^ d) w = w - real d * (c :: real)"
  by (induction d) (simp_all add: algebra_simps)

lemma funpow_unchanged: "((\<lambda>v. v) ^^ n) x = x"
  by (induction n) simp_all

lemma sequential_catch_up_no_gradient:
  "sequential_catch_up p stp d 0 w = decrements_then_prox p stp d 0 w"
  by (simp add: sequential_catch_up_def decrements_then_prox_def funpow_unchanged)

lemma sequential_catch_up_no_prox:
  assumes "\<forall>v. prox_call_single p v stp = v"
  shows "sequential_catch_up p stp d g w = decrements_then_prox p stp d g w"
  using assms by (simp add: sequential_catch_up_def decrements_then_prox_def funpow_unchanged)

lemma delay_of_unat:
  assumes "unat tt = unat l + d + 1"
  shows "unat (delay_of tt l) = d"
proof -
  have "unat tt < 2 ^ LENGTH(64)"
    by (rule unsigned_less)
  then have "unat l + unat (1 :: ulong) < 2 ^ LENGTH(64)"
    using assms by simp
  then have l1: "unat (l + 1) = unat l + 1"
    by (simp only: unat_add_lem) simp
  show ?thesis
  proof (cases "d = 0")
    case True
    then have "\<not> l + 1 < tt"
      using assms l1 by (simp add: word_less_nat_alt)
    then show ?thesis
      using True by (simp add: delay_of_def)
  next
    case False
    then have lt: "l + 1 < tt"
      using assms l1 by (simp add: word_less_nat_alt)
    then have "unat (tt - (l + 1)) = unat tt - unat (l + 1)"
      by (simp add: unat_sub)
    then show ?thesis
      using lt assms l1 by (simp add: delay_of_def)
  qed
qed

section \<open>The claims\<close>

text \<open>
  C1. The claim: in the probabilistic mode, the cached correction of the coordinate \<open>j\<close>
  is the exact quotient of the number of samples by the number of samples that are not
  zero at \<open>j\<close>. The code divides the two \<^verbatim>\<open>ulong\<close> values first and converts the integer
  quotient: for the model with three samples of which two are not zero at the
  coordinate 0, the cached correction is 1, while the quotient is 3 / 2.
\<close>

theorem step_correction_is_integer_quotient:
  "map_sum id steps_correction (prepare_solve solver_three_samples) = Inr [1]
   \<and> real (unat (model_get_n_samples model_three_samples))
       / real (unat (model_compute_columns_non_zeros model_three_samples 0)) = 3 / 2"
  by (simp add: example_defs model_three_samples_def solver_three_samples_def routine_defs)

text \<open>
  C2. The claim: a sparse model in the probabilistic mode with a column that is zero in
  every sample makes the solver raise a configuration error before any update. The
  code has no test of the count: \<^verbatim>\<open>solve\<close> reaches the integer division by zero of
  line 87, which is undefined behaviour, and raises nothing.
\<close>

theorem zero_column_divides_by_zero:
  "solve solver_zero_column = Inl DivisionByZero"
  by (simp add: example_defs model_zero_column_def solver_zero_column_def routine_defs upt_rec)

text \<open>
  C3. \<^verbatim>\<open>solve\<close> runs \<^verbatim>\<open>prepare_solve\<close> and then, on the state it leaves, the dense
  routine when the model is dense, the exact routine when the model is sparse and the
  policy is \<open>Exact\<close>, the probabilistic routine when the model is sparse and the policy
  is \<open>Proba\<close>. For a sparse model and any other policy it runs no routine and returns
  the state that \<^verbatim>\<open>prepare_solve\<close> left: it does not abort. (When \<^verbatim>\<open>prepare_solve\<close> runs
  into undefined behaviour, no routine is run.)
\<close>

theorem solve_dispatch:
  "solve s =
     (case prepare_solve s of
        Inl e \<Rightarrow> Inl e
      | Inr s1 \<Rightarrow>
         (if model_is_sparse (model s1) then
            (case delayed_updates s1 of
               Exact \<Rightarrow> solve_sparse_exact_updates s1
             | Proba \<Rightarrow> solve_sparse_proba_updates s1
             | Unrecognized \<Rightarrow> Inr s1)
          else solve_dense s1))"
  by (rule solve_cases)

text \<open>
  The claim as it is written says that a sparse model with a policy that is neither
  \<open>Exact\<close> nor \<open>Proba\<close> makes the call abort. It returns, with the state of
  \<^verbatim>\<open>prepare_solve\<close>.
\<close>

theorem solve_unrecognized_policy_returns:
  "\<not> isl (solve solver_unrecognized)
   \<and> solve solver_unrecognized = prepare_solve solver_unrecognized"
  by (simp add: example_defs solver_unrecognized_def routine_defs)

text \<open>
  C4. In the exact routine with a separable prox, take a coordinate \<open>j\<close> of the support
  of the row sampled at the iteration \<open>t\<close>, whose last update recorded in \<open>last_time[j]\<close>
  is followed by \<open>d > 0\<close> iterations that left it alone (\<open>t = last_time[j] + d + 1\<close>), and a
  prox whose call for \<open>n\<close> steps is \<open>n\<close> calls for one step. The value that the code writes
  (one decrement by \<open>step * d * full_gradient[j]\<close>, one call of the prox for \<open>d\<close> steps,
  the update of the support and one call of the prox) is the value obtained by \<open>d\<close>
  decrements by \<open>step * full_gradient[j]\<close>, then \<open>d\<close> calls of the prox for one step, then
  the same update of the support: all the decrements come before all the calls of the
  prox. When \<open>full_gradient[j]\<close> is 0, or when the call of the prox for one step changes
  no value, it is also the value of the sequential form, which has one decrement and
  one call of the prox at each skipped iteration.
\<close>

theorem batched_catch_up_is_decrements_then_prox:
  assumes "j < length (iterate s)" and "j < length (full_gradient s)" and "j < length (last_time s)"
    and "is_prox_separable s"
    and "unat (t s) = unat (last_time s ! j) + d + 1" and "0 < d"
    and "\<forall>v n. prox_call_single_n (prox s) v (step s) n
                 = ((\<lambda>u. prox_call_single (prox s) u (step s)) ^^ unat n) v"
  shows "\<exists>s'. exact_update_coord s grad_i_diff (j, x_ij) = Inr s'
            \<and> iterate s' ! j
                = support_update (prox s) (step s) (full_gradient s ! j) x_ij grad_i_diff
                    (decrements_then_prox (prox s) (step s) d (full_gradient s ! j) (iterate s ! j))
            \<and> last_time s' ! j = t s
            \<and> (full_gradient s ! j = 0 \<or> (\<forall>v. prox_call_single (prox s) v (step s) = v)
                 \<longrightarrow> iterate s' ! j
                       = support_update (prox s) (step s) (full_gradient s ! j) x_ij grad_i_diff
                           (sequential_catch_up (prox s) (step s) d (full_gradient s ! j)
                              (iterate s ! j)))"
proof -
  define dl where "dl = delay_of (t s) (last_time s ! j)"
  have ud: "unat dl = d"
    unfolding dl_def by (rule delay_of_unat [OF assms(5)])
  then have pos: "0 < dl"
    using assms(6) by (simp add: word_less_nat_alt)
  define w1 where "w1 = iterate s ! j - step s * real d * (full_gradient s ! j)"
  define w2 where "w2 = prox_call_single_n (prox s) w1 (step s) dl"
  have c: "catch_up s j dl = s\<lparr>iterate := (iterate s)[j := w2]\<rparr>"
    using pos assms(4) by (simp add: catch_up_def Let_def w2_def w1_def ud)
  have "w1 = ((\<lambda>v. v - step s * (full_gradient s ! j)) ^^ d) (iterate s ! j)"
    by (simp add: w1_def sequential_decrements)
  moreover have "w2 = ((\<lambda>u. prox_call_single (prox s) u (step s)) ^^ d) w1"
    using assms(7) by (simp add: w2_def ud)
  ultimately have seq: "w2 = decrements_then_prox (prox s) (step s) d (full_gradient s ! j) (iterate s ! j)"
    by (simp add: decrements_then_prox_def)
  have per: "sequential_catch_up (prox s) (step s) d (full_gradient s ! j) (iterate s ! j) = w2"
    if "full_gradient s ! j = 0 \<or> (\<forall>v. prox_call_single (prox s) v (step s) = v)"
    using that
  proof
    assume "full_gradient s ! j = 0"
    then show ?thesis
      using seq sequential_catch_up_no_gradient [of "prox s" "step s" d "iterate s ! j"] by simp
  next
    assume "\<forall>v. prox_call_single (prox s) v (step s) = v"
    then show ?thesis
      using seq by (simp add: sequential_catch_up_no_prox)
  qed
  define s' where "s' = s\<lparr>iterate := (iterate s)[j :=
                           support_update (prox s) (step s) (full_gradient s ! j) x_ij grad_i_diff w2],
                         last_time := (last_time s)[j := t s]\<rparr>"
  have "exact_update_coord s grad_i_diff (j, x_ij) = Inr s'"
    using assms(1-4)
    by (simp add: exact_update_coord_def Let_def c [unfolded dl_def] s'_def support_update_def)
  moreover have "iterate s' ! j
      = support_update (prox s) (step s) (full_gradient s ! j) x_ij grad_i_diff w2"
    using assms(1) by (simp add: s'_def)
  moreover have "last_time s' ! j = t s"
    using assms(3) by (simp add: s'_def)
  ultimately show ?thesis
    using seq per by auto
qed

theorem batched_catch_up_is_decrements_then_prox_witness:
  "is_prox_separable (projr (prepare_solve solver_exact_ridge))
   \<and> \<not> isl (exact_update_coord
               ((projr (prepare_solve solver_exact_ridge))\<lparr>t := 4, last_time := [1]\<rparr>) 1 (0, 1))
   \<and> iterate (projr (exact_update_coord
               ((projr (prepare_solve solver_exact_ridge))\<lparr>t := 4, last_time := [1]\<rparr>) 1 (0, 1))) ! 0
       = support_update prox_ridge 1 (5 / 2) 1 1 (decrements_then_prox prox_ridge 1 2 (5 / 2) 3)
   \<and> support_update prox_ridge 1 (5 / 2) 1 1 (decrements_then_prox prox_ridge 1 2 (5 / 2) 3) = - 2
   \<and> is_prox_separable (projr (prepare_solve solver_exact))
   \<and> \<not> isl (exact_update_coord
               ((projr (prepare_solve solver_exact))\<lparr>t := 4, last_time := [1]\<rparr>) 1 (0, 1))
   \<and> iterate (projr (exact_update_coord
               ((projr (prepare_solve solver_exact))\<lparr>t := 4, last_time := [1]\<rparr>) 1 (0, 1))) ! 0
       = support_update prox_zero 1 1 1 1 (sequential_catch_up prox_zero 1 2 1 0)
   \<and> support_update prox_zero 1 1 1 1 (sequential_catch_up prox_zero 1 2 1 0) = - 4"
proof -
  define s where "s = (projr (prepare_solve solver_exact_ridge))\<lparr>t := 4, last_time := [1]\<rparr>"
  have e: "iterate s = [3]" "full_gradient s = [5 / 2]" "last_time s = [1]" "step s = 1"
    "is_prox_separable s" "prox s = prox_ridge" "t s = 4"
    by (simp_all add: s_def example_defs prox_ridge_def solver_exact_ridge_def routine_defs)
  have a: "0 < length (iterate s)" "0 < length (full_gradient s)" "0 < length (last_time s)"
    "is_prox_separable s" "unat (t s) = unat (last_time s ! 0) + 2 + 1" "0 < (2 :: nat)"
    by (simp_all add: e)
  have b: "\<forall>v n. prox_call_single_n (prox s) v (step s) n
                 = ((\<lambda>u. prox_call_single (prox s) u (step s)) ^^ unat n) v"
    by (simp add: e prox_ridge_batched) (simp add: prox_ridge_def)
  obtain s' where
    l: "exact_update_coord s 1 (0, 1) = Inr s'"
    and v: "iterate s' ! 0 = support_update prox_ridge 1 (5 / 2) 1 1
                               (decrements_then_prox prox_ridge 1 2 (5 / 2) 3)"
    using batched_catch_up_is_decrements_then_prox [OF a b, of 1 1] by (auto simp: e)
  have n: "support_update prox_ridge 1 (5 / 2) 1 1 (decrements_then_prox prox_ridge 1 2 (5 / 2) 3) = - 2"
    by (simp add: support_update_def decrements_then_prox_def prox_ridge_def numeral_2_eq_2)
  have r: "is_prox_separable (projr (prepare_solve solver_exact_ridge))"
    using e(5) by (simp add: s_def)
  define z where "z = (projr (prepare_solve solver_exact))\<lparr>t := 4, last_time := [1]\<rparr>"
  have ez: "iterate z = [0]" "full_gradient z = [1]" "last_time z = [1]" "step z = 1"
    "is_prox_separable z" "prox z = prox_zero" "t z = 4"
    by (simp_all add: z_def example_defs solver_exact_def routine_defs)
  have az: "0 < length (iterate z)" "0 < length (full_gradient z)" "0 < length (last_time z)"
    "is_prox_separable z" "unat (t z) = unat (last_time z ! 0) + 2 + 1" "0 < (2 :: nat)"
    by (simp_all add: ez)
  have idz: "\<forall>v. prox_call_single (prox z) v (step z) = v"
    by (simp add: ez prox_zero_def)
  have bz: "\<forall>v n. prox_call_single_n (prox z) v (step z) n
                 = ((\<lambda>u. prox_call_single (prox z) u (step z)) ^^ unat n) v"
  proof (intro allI)
    fix v n
    have "((\<lambda>u. prox_call_single (prox z) u (step z)) ^^ k) v = v" for k
      using idz by (induction k) simp_all
    then show "prox_call_single_n (prox z) v (step z) n
                 = ((\<lambda>u. prox_call_single (prox z) u (step z)) ^^ unat n) v"
      by (simp add: ez prox_zero_def)
  qed
  obtain z' where
    lz: "exact_update_coord z 1 (0, 1) = Inr z'"
    and vz: "iterate z' ! 0 = support_update prox_zero 1 1 1 1 (sequential_catch_up prox_zero 1 2 1 0)"
    using batched_catch_up_is_decrements_then_prox [OF az bz, of 1 1] idz by (auto simp: ez)
  have nz: "support_update prox_zero 1 1 1 1 (sequential_catch_up prox_zero 1 2 1 0) = - 4"
    by (simp add: support_update_def sequential_catch_up_def prox_zero_def numeral_2_eq_2)
  have rz: "is_prox_separable (projr (prepare_solve solver_exact))"
    using ez(5) by (simp add: z_def)
  show ?thesis
    using l v n r lz vz nz rz unfolding s_def z_def by simp
qed

text \<open>
  The claim as it is written compares with the sequential form for every separable prox.
  With the prox that divides by \<open>1 + step\<close> (its call for \<open>n\<close> steps divides by
  \<open>(1 + step) ^ n\<close>, as \<open>n\<close> calls for one step do), the step 1, the full gradient \<open>5 / 2\<close>, the
  coordinate at 3, last updated at the iteration 1 and in the support again at the
  iteration 4 (\<open>d = 2\<close>), the code writes \<open>-2\<close>; the sequential form gives \<open>-37 / 16\<close>.
\<close>

theorem batched_catch_up_is_not_sequential:
  "is_prox_separable (projr (prepare_solve solver_exact_ridge))
   \<and> iterate (projr (prepare_solve solver_exact_ridge)) = [3]
   \<and> full_gradient (projr (prepare_solve solver_exact_ridge)) = [5 / 2]
   \<and> step (projr (prepare_solve solver_exact_ridge)) = 1
   \<and> prox (projr (prepare_solve solver_exact_ridge)) = prox_ridge
   \<and> map_sum id iterate
         (exact_update_coord
            ((projr (prepare_solve solver_exact_ridge))\<lparr>t := 4, last_time := [1]\<rparr>) 1 (0, 1))
       = Inr [- 2]
   \<and> support_update prox_ridge 1 (5 / 2) 1 1 (sequential_catch_up prox_ridge 1 2 (5 / 2) 3)
       = - 37 / 16"
proof -
  have code: "is_prox_separable (projr (prepare_solve solver_exact_ridge))
   \<and> iterate (projr (prepare_solve solver_exact_ridge)) = [3]
   \<and> full_gradient (projr (prepare_solve solver_exact_ridge)) = [5 / 2]
   \<and> step (projr (prepare_solve solver_exact_ridge)) = 1
   \<and> prox (projr (prepare_solve solver_exact_ridge)) = prox_ridge
   \<and> map_sum id iterate
         (exact_update_coord
            ((projr (prepare_solve solver_exact_ridge))\<lparr>t := 4, last_time := [1]\<rparr>) 1 (0, 1))
       = Inr [- 2]"
    by (simp add: example_defs prox_ridge_def solver_exact_ridge_def routine_defs)
  have form: "support_update prox_ridge 1 (5 / 2) 1 1 (sequential_catch_up prox_ridge 1 2 (5 / 2) 3)
       = - 37 / 16"
    by (simp add: support_update_def sequential_catch_up_def prox_ridge_def numeral_2_eq_2)
  from code form show ?thesis
    by blast
qed

text \<open>
  C5. The claim: after the pass at the end of the epoch of the exact routine, every
  feature has received as many decrements by the full gradient as in an execution that
  updates every coordinate at every iteration. \<^verbatim>\<open>last_time\<close> starts at 0, which the
  delay reads as an update at the iteration 0: a feature that is not in the support of
  the row sampled at the iteration 0 never receives the decrement of that iteration.
  On the least-squares example the sampled row is always the sample 0, whose support is
  empty, and the full gradient is 1: the dense routine decrements the coordinate three
  times, the exact routine twice.
\<close>

theorem exact_routine_misses_first_iteration:
  "map_sum id iterate (solve solver_exact) = Inr [- 2]
   \<and> map_sum id iterate (solve solver_dense) = Inr [- 3]"
  by (simp add: example_defs solver_exact_def solver_dense_def routine_defs)




text \<open>
  C7. For a sparse model under the policy \<open>Proba\<close>, a call of \<^verbatim>\<open>solve\<close>, which is
  \<^verbatim>\<open>prepare_solve\<close> followed by the probabilistic routine, leaves the step corrections
  cached: the flag \<^verbatim>\<open>ready_step_corrections\<close> is set after \<^verbatim>\<open>prepare_solve\<close> and after
  the routine; when the flag was set before the call, \<^verbatim>\<open>compute_step_corrections\<close>
  changes nothing and the corrections are the ones of before; when it was not, they
  are the ones computed from the counts of the model. \<^verbatim>\<open>set_model\<close> clears the flag.
\<close>

theorem step_corrections_cached:
  assumes "model_is_sparse (model s)" and "is_model_sparse s" and "delayed_updates s = Proba"
    and "prepare_solve s = Inr s1" and "solve_sparse_proba_updates s1 = Inr s'"
  shows "solve s = Inr s'
       \<and> ready_step_corrections s1 \<and> ready_step_corrections s'
       \<and> steps_correction s' = steps_correction s1
       \<and> compute_step_corrections s' = Inr s'
       \<and> (if ready_step_corrections s
           then steps_correction s1 = steps_correction s
           else step_corrections_loop (model_get_n_samples (model s))
                  (map (model_compute_columns_non_zeros (model s)) [0..<model_get_n_features (model s)])
                = Inr (steps_correction s1))
       \<and> \<not> ready_step_corrections (set_model m s')"
proof -
  note k = prepare_solve_keeps [OF assms(4)]
  have "solve s = Inr s'"
    using assms k by (simp add: solve_cases)
  moreover have r1: "ready_step_corrections s1"
    using prepare_solve_step_corrections(1) [OF assms(4) assms(2) assms(1) assms(3)] .
  moreover have r': "ready_step_corrections s'" and "steps_correction s' = steps_correction s1"
    using solve_sparse_proba_updates_keeps [OF assms(5)] r1 by simp_all
  moreover have "compute_step_corrections s' = Inr s'"
    using r' by (rule compute_step_corrections_ready)
  moreover have "if ready_step_corrections s
           then steps_correction s1 = steps_correction s
           else step_corrections_loop (model_get_n_samples (model s))
                  (map (model_compute_columns_non_zeros (model s)) [0..<model_get_n_features (model s)])
                = Inr (steps_correction s1)"
    using prepare_solve_step_corrections(2,3) [OF assms(4) assms(2) assms(1) assms(3)] by simp
  moreover have "\<not> ready_step_corrections (set_model m s')"
    by (simp add: set_model_def Let_def)
  ultimately show ?thesis
    by simp
qed

theorem step_corrections_cached_witness:
  "model_is_sparse (model solver_proba) \<and> is_model_sparse solver_proba
   \<and> delayed_updates solver_proba = Proba
   \<and> \<not> isl (prepare_solve solver_proba)
   \<and> \<not> isl (solve_sparse_proba_updates (projr (prepare_solve solver_proba)))
   \<and> ready_step_corrections (projr (prepare_solve solver_proba))
   \<and> steps_correction (projr (prepare_solve solver_proba)) = [2]
   \<and> \<not> ready_step_corrections
         (set_model model_three_samples
            (projr (solve_sparse_proba_updates (projr (prepare_solve solver_proba)))))"
proof -
  have a: "model_is_sparse (model solver_proba)" "is_model_sparse solver_proba"
    "delayed_updates solver_proba = Proba"
    by (simp_all add: example_defs model_three_samples_def solver_proba_def)
  have b: "\<not> isl (prepare_solve solver_proba)"
    by (simp add: example_defs model_three_samples_def solver_proba_def routine_defs)
  then obtain s1 where s1: "prepare_solve solver_proba = Inr s1"
    by (cases "prepare_solve solver_proba") simp_all
  have c: "\<not> isl (solve_sparse_proba_updates (projr (prepare_solve solver_proba)))"
    by (simp add: example_defs model_three_samples_def solver_proba_def routine_defs)
  then obtain s' where s': "solve_sparse_proba_updates s1 = Inr s'"
    using s1 by (cases "solve_sparse_proba_updates s1") simp_all
  have r: "\<not> ready_step_corrections solver_proba"
    by (simp add: example_defs model_three_samples_def solver_proba_def)
  have "ready_step_corrections s1 \<and> steps_correction s1 = [2]
        \<and> \<not> ready_step_corrections (set_model model_three_samples s')"
    using step_corrections_cached [OF a s1 s', of model_three_samples] r
    by (simp add: example_defs model_three_samples_def solver_proba_def)
  then show ?thesis
    using a b c s1 s' by simp
qed

text \<open>
  The claim as it is written speaks of every sparse model. Under the policy \<open>Exact\<close>
  the corrections are not computed and the flag stays clear after \<^verbatim>\<open>prepare_solve\<close>.
\<close>

theorem exact_policy_caches_nothing:
  "\<not> isl (prepare_solve solver_exact)
   \<and> \<not> ready_step_corrections (projr (prepare_solve solver_exact))
   \<and> steps_correction (projr (prepare_solve solver_exact)) = []"
  by (simp add: example_defs solver_exact_def routine_defs)

text \<open>
  C8. In the probabilistic routine, the loop over the support of the sampled row (a
  sparse row: its indices are distinct, and within the arrays) writes, for every entry
  \<open>(j, x_ij)\<close> of the row, the value
  \<open>iterate[j] - step * (x_ij * grad_i_diff + steps_correction[j] * full_gradient[j])\<close>,
  to which, when the prox is separable, the prox of one coordinate is applied with the
  step \<open>step * steps_correction[j]\<close>. It changes no other coordinate.
\<close>

theorem proba_support_update:
  assumes "distinct (map fst x_i)"
    and "\<forall>j \<in> fst ` set x_i. j < length (iterate s) \<and> j < length (full_gradient s)
                                \<and> j < length (steps_correction s)"
  shows "\<exists>s'. proba_support_loop s grad_i_diff x_i = Inr s'
            \<and> (\<forall>(j, x_ij) \<in> set x_i.
                  iterate s' ! j =
                    (if is_prox_separable s
                     then prox_call_single (prox s)
                            (iterate s ! j - step s * (x_ij * grad_i_diff
                                                       + steps_correction s ! j * full_gradient s ! j))
                            (step s * steps_correction s ! j)
                     else iterate s ! j - step s * (x_ij * grad_i_diff
                                                    + steps_correction s ! j * full_gradient s ! j)))
            \<and> (\<forall>j. j \<notin> fst ` set x_i \<longrightarrow> iterate s' ! j = iterate s ! j)"
proof -
  obtain s' where
    l: "proba_support_loop s grad_i_diff x_i = Inr s'"
    and v: "\<forall>(j, x) \<in> set x_i. iterate s' ! j = proba_value s grad_i_diff j x"
    and o: "\<forall>j. j \<notin> fst ` set x_i \<longrightarrow> iterate s' ! j = iterate s ! j"
    using proba_support_loop_values [OF assms] by blast
  have "\<forall>(j, x_ij) \<in> set x_i.
                  iterate s' ! j =
                    (if is_prox_separable s
                     then prox_call_single (prox s)
                            (iterate s ! j - step s * (x_ij * grad_i_diff
                                                       + steps_correction s ! j * full_gradient s ! j))
                            (step s * steps_correction s ! j)
                     else iterate s ! j - step s * (x_ij * grad_i_diff
                                                    + steps_correction s ! j * full_gradient s ! j))"
    using v by (auto simp: proba_value_def Let_def)
  then show ?thesis
    using l o by blast
qed

theorem proba_support_update_witness:
  "distinct (map fst [(0 :: nat, 1 :: real)])
   \<and> \<not> isl (proba_support_loop (projr (prepare_solve solver_proba_ridge)) 3 [(0, 1)])
   \<and> steps_correction (projr (prepare_solve solver_proba_ridge)) = [2]
   \<and> full_gradient (projr (prepare_solve solver_proba_ridge)) = [1]
   \<and> iterate (projr (proba_support_loop (projr (prepare_solve solver_proba_ridge)) 3 [(0, 1)])) ! 0
       = - 5 / 3"
proof -
  define s where "s = projr (prepare_solve solver_proba_ridge)"
  have e: "iterate s = [0]" "full_gradient s = [1]" "steps_correction s = [2]" "step s = 1"
    "is_prox_separable s" "prox s = prox_ridge"
    by (simp_all add: s_def example_defs prox_ridge_def solver_proba_ridge_def routine_defs)
  have a: "distinct (map fst [(0 :: nat, 1 :: real)])"
    "\<forall>j \<in> fst ` set [(0 :: nat, 1 :: real)]. j < length (iterate s) \<and> j < length (full_gradient s)
                                \<and> j < length (steps_correction s)"
    by (simp_all add: e)
  obtain s' where
    l: "proba_support_loop s 3 [(0, 1)] = Inr s'" and v: "iterate s' ! 0 = - 5 / 3"
    using proba_support_update [OF a, of 3] by (auto simp: e prox_ridge_def)
  show ?thesis
    using a(1) l v e(2,3) unfolding s_def by simp
qed

text \<open>
  C9. On a dense model, with the step 0 and a prox whose application with the step 0
  changes no coordinate, a call of \<^verbatim>\<open>solve\<close> that returns leaves the iterate as it
  was, and so does any number of successive calls.
\<close>

theorem dense_zero_step_keeps_iterate:
  assumes "\<not> model_is_sparse (model s)" and "step s = 0"
    and "\<forall>w j. j < length w \<longrightarrow> prox_call (prox s) w 0 j = w ! j"
    and "solve_epochs n s = Inr s'"
  shows "iterate s' = iterate s"
  using assms
proof (induction n arbitrary: s)
  case 0
  then show ?case by simp
next
  case (Suc n)
  from Suc.prems(4) obtain s1 where
    1: "solve s = Inr s1" and 2: "solve_epochs n s1 = Inr s'"
    by (auto split: sum.splits)
  note z = solve_zero_step [OF 1 Suc.prems(1,2,3)]
  have "iterate s' = iterate s1"
    using Suc.IH [OF _ _ _ 2] Suc.prems(1,2,3) z by simp
  then show ?case
    using z(1) by simp
qed

theorem dense_zero_step_keeps_iterate_witness:
  "\<not> model_is_sparse (model (solver_zero_step prox_zero))
   \<and> step (solver_zero_step prox_zero) = 0
   \<and> \<not> isl (solve_epochs 2 (solver_zero_step prox_zero))
   \<and> iterate (projr (solve_epochs 2 (solver_zero_step prox_zero))) = [- 1]"
proof -
  have a: "\<not> model_is_sparse (model (solver_zero_step prox_zero))"
    "step (solver_zero_step prox_zero) = 0"
    "\<forall>w j. j < length w \<longrightarrow> prox_call (prox (solver_zero_step prox_zero)) w 0 j = w ! j"
    by (simp_all add: example_defs solver_zero_step_def)
  have b: "\<not> isl (solve_epochs 2 (solver_zero_step prox_zero))"
    by (simp add: example_defs solver_zero_step_def routine_defs numeral_2_eq_2)
  then obtain s' where s': "solve_epochs 2 (solver_zero_step prox_zero) = Inr s'"
    by (cases "solve_epochs 2 (solver_zero_step prox_zero)") simp_all
  have "iterate s' = [- 1]"
    using dense_zero_step_keeps_iterate [OF a s'] by (simp add: example_defs solver_zero_step_def)
  then show ?thesis
    using a(1,2) b s' by simp
qed

text \<open>
  The claim as it is written has no condition on the prox. The dense routine applies
  the prox at every iteration, also with the step 0: with the projection on the
  vectors without a negative coordinate, one call of \<^verbatim>\<open>solve\<close> with the step 0 turns
  the iterate \<open>[-1]\<close> into \<open>[0]\<close>.
\<close>

theorem dense_zero_step_projection_moves_iterate:
  "\<not> model_is_sparse (model (solver_zero_step prox_positive))
   \<and> step (solver_zero_step prox_positive) = 0
   \<and> iterate (solver_zero_step prox_positive) = [- 1]
   \<and> map_sum id iterate (solve (solver_zero_step prox_positive)) = Inr [0]"
  by (simp add: example_defs solver_zero_step_def prox_positive_def routine_defs)

text \<open>
  C10. After a call of \<^verbatim>\<open>solve\<close> that returns, the counter \<^verbatim>\<open>t\<close> is twice
  \<^verbatim>\<open>epoch_size\<close> (in the arithmetic of \<^verbatim>\<open>ulong\<close>) when the model is sparse and the
  policy is \<open>Exact\<close> or \<open>Proba\<close>, whatever it was before; when the model is dense it
  has grown by \<^verbatim>\<open>epoch_size\<close>.
\<close>

theorem solve_iteration_counter:
  assumes "solve s = Inr s'"
  shows "(model_is_sparse (model s) \<and> (delayed_updates s = Exact \<or> delayed_updates s = Proba)
            \<longrightarrow> t s' = 2 * epoch_size s)
       \<and> (\<not> model_is_sparse (model s) \<longrightarrow> t s' = t s + epoch_size s)"
proof -
  from assms obtain s1 where p: "prepare_solve s = Inr s1"
    by (auto simp: solve_def split: sum.splits)
  note k = prepare_solve_keeps [OF p]
  have r: "solve s = (if model_is_sparse (model s1) then
            (case delayed_updates s1 of
               Exact \<Rightarrow> solve_sparse_exact_updates s1
             | Proba \<Rightarrow> solve_sparse_proba_updates s1
             | Unrecognized \<Rightarrow> Inr s1)
          else solve_dense s1)"
    by (simp add: solve_cases p)
  show ?thesis
    using r assms k(1-4) solve_sparse_exact_updates_counter [of s1 s']
      solve_sparse_proba_updates_counter [of s1 s'] solve_dense_counter [of s1 s']
    by auto
qed

theorem solve_iteration_counter_witness:
  "\<not> isl (solve (solver_exact\<lparr>t := 7\<rparr>))
   \<and> t (projr (solve (solver_exact\<lparr>t := 7\<rparr>))) = 6
   \<and> \<not> isl (solve (solver_proba\<lparr>t := 7\<rparr>))
   \<and> t (projr (solve (solver_proba\<lparr>t := 7\<rparr>))) = 6
   \<and> \<not> isl (solve (solver_dense\<lparr>t := 7\<rparr>))
   \<and> t (projr (solve (solver_dense\<lparr>t := 7\<rparr>))) = 10"
proof -
  have e: "\<not> isl (solve (solver_exact\<lparr>t := 7\<rparr>))"
    by (simp add: example_defs solver_exact_def solver_proba_def solver_dense_def routine_defs)
  then obtain se where se: "solve (solver_exact\<lparr>t := 7\<rparr>) = Inr se"
    by (cases "solve (solver_exact\<lparr>t := 7\<rparr>)") simp_all
  have p: "\<not> isl (solve (solver_proba\<lparr>t := 7\<rparr>))"
    by (simp add: example_defs solver_exact_def solver_proba_def solver_dense_def routine_defs)
  then obtain sp where sp: "solve (solver_proba\<lparr>t := 7\<rparr>) = Inr sp"
    by (cases "solve (solver_proba\<lparr>t := 7\<rparr>)") simp_all
  have d: "\<not> isl (solve (solver_dense\<lparr>t := 7\<rparr>))"
    by (simp add: example_defs solver_exact_def solver_proba_def solver_dense_def routine_defs)
  then obtain sd where sd: "solve (solver_dense\<lparr>t := 7\<rparr>) = Inr sd"
    by (cases "solve (solver_dense\<lparr>t := 7\<rparr>)") simp_all
  have "t se = 6"
    using solve_iteration_counter [OF se] by (simp add: example_defs solver_exact_def solver_proba_def solver_dense_def)
  moreover have "t sp = 6"
    using solve_iteration_counter [OF sp] by (simp add: example_defs solver_exact_def solver_proba_def solver_dense_def)
  moreover have "t sd = 10"
    using solve_iteration_counter [OF sd] by (simp add: example_defs solver_exact_def solver_proba_def solver_dense_def)
  ultimately show ?thesis
    using e p d se sp sd by simp
qed

end
